theory Spec2Isabelle
  imports Main "HOL-Library.List_Lexorder"
begin

section \<open>Strings\<close>

text \<open>
  The source is TypeScript: a string is a sequence of UTF-16 code units, and indexing,
  comparison and sorting all work on code units. A code unit is modelled by its number
  (below 65536 in the program) and a string by the list of its code units. \<open>str\<close>
  turns an ASCII literal into such a string.
\<close>

type_synonym jsstring = "nat list"

definition str :: "string \<Rightarrow> jsstring" where
  "str s = map of_char s"

text \<open>
  The code units that the regular expression \<open>/\s/\<close> matches and that
  \<open>String.prototype.trim\<close> removes: TAB, LF, VT, FF, CR, SPACE, NBSP, U+1680,
  U+2000 to U+200A, U+2028, U+2029, U+202F, U+205F, U+3000 and U+FEFF.
\<close>

definition is_space :: "nat \<Rightarrow> bool" where
  "is_space ch = (ch = 0x09 \<or> ch = 0x0A \<or> ch = 0x0B \<or> ch = 0x0C \<or> ch = 0x0D
     \<or> ch = 0x20 \<or> ch = 0xA0 \<or> ch = 0x1680 \<or> (0x2000 \<le> ch \<and> ch \<le> 0x200A)
     \<or> ch = 0x2028 \<or> ch = 0x2029 \<or> ch = 0x202F \<or> ch = 0x205F \<or> ch = 0x3000
     \<or> ch = 0xFEFF)"

definition trim :: "jsstring \<Rightarrow> jsstring" where
  "trim s = rev (dropWhile is_space (rev (dropWhile is_space s)))"

text \<open>\<open>xs.join(sep)\<close> on an array of strings.\<close>

fun join :: "jsstring \<Rightarrow> jsstring list \<Rightarrow> jsstring" where
  "join sep [] = []"
| "join sep [x] = x"
| "join sep (x # y # ys) = x @ sep @ join sep (y # ys)"

text \<open>
  \<open>s.split(c)\<close> for a one-character separator: the pieces between the separators, so
  that the empty string gives one empty piece. \<open>cur\<close> is the piece being read.
\<close>

fun split_from :: "nat \<Rightarrow> jsstring \<Rightarrow> jsstring \<Rightarrow> jsstring list" where
  "split_from sep cur [] = [cur]"
| "split_from sep cur (c # cs) =
     (if c = sep then cur # split_from sep [] cs else split_from sep (cur @ [c]) cs)"

definition split :: "nat \<Rightarrow> jsstring \<Rightarrow> jsstring list" where
  "split sep s = split_from sep [] s"

text \<open>The characters the program names: the two quotes, the backslash, the slash, the line feed and the tab.\<close>

abbreviation SQUOTE :: nat where "SQUOTE \<equiv> 0x27"
abbreviation DQUOTE :: nat where "DQUOTE \<equiv> 0x22"
abbreviation BACKSLASH :: nat where "BACKSLASH \<equiv> 0x5C"
abbreviation SLASH :: nat where "SLASH \<equiv> 0x2F"
abbreviation LF :: nat where "LF \<equiv> 0x0A"
abbreviation TAB :: nat where "TAB \<equiv> 0x09"

section \<open>terminal.ts: the tokenizer\<close>

datatype mode = none | single | double

text \<open>
  \<open>tokenize\<close>, lines 451 to 516. The \<open>while (i < input.length)\<close> loop with its four
  variables \<open>out\<close>, \<open>cur\<close>, \<open>i\<close> and \<open>mode\<close>; each \<open>continue\<close> is a recursive call.
  \<open>input[i + 1] ?? ''\<close> is the empty string when \<open>i + 1\<close> is out of range.
\<close>

function tokenize_loop :: "jsstring \<Rightarrow> jsstring list \<Rightarrow> jsstring \<Rightarrow> nat \<Rightarrow> mode \<Rightarrow> jsstring list" where
  "tokenize_loop input out cur i m =
     (if i < length input then
        (let ch = input ! i in
         case m of
           none \<Rightarrow>
             if is_space ch then
               (if cur \<noteq> [] then tokenize_loop input (out @ [cur]) [] (i + 1) none
                else tokenize_loop input out cur (i + 1) none)
             else if ch = SQUOTE then tokenize_loop input out cur (i + 1) single
             else if ch = DQUOTE then tokenize_loop input out cur (i + 1) double
             else tokenize_loop input out (cur @ [ch]) (i + 1) none
         | single \<Rightarrow>
             if ch = SQUOTE then tokenize_loop input out cur (i + 1) none
             else tokenize_loop input out (cur @ [ch]) (i + 1) single
         | double \<Rightarrow>
             if ch = DQUOTE then tokenize_loop input out cur (i + 1) none
             else if ch = BACKSLASH then
               (let next = (if i + 1 < length input then [input ! (i + 1)] else []) in
                if next = str ''n'' then tokenize_loop input out (cur @ [LF]) (i + 2) double
                else if next = str ''t'' then tokenize_loop input out (cur @ [TAB]) (i + 2) double
                else if next = [DQUOTE] \<or> next = [BACKSLASH]
                  then tokenize_loop input out (cur @ next) (i + 2) double
                else tokenize_loop input out (cur @ next) (i + 2) double)
             else tokenize_loop input out (cur @ [ch]) (i + 1) double)
      else (if cur \<noteq> [] then out @ [cur] else out))"
  by pat_completeness auto
termination
  by (relation "measure (\<lambda>(input, out, cur, i, m). length input - i)") auto

declare tokenize_loop.simps [simp del]

definition tokenize :: "jsstring \<Rightarrow> jsstring list" where
  "tokenize input = tokenize_loop input [] [] 0 none"

subsection \<open>The tokenizer as the specification words it\<close>

text \<open>
  Three modes over the remaining characters. \<open>flush cur\<close> is the token accumulated so
  far, if any. \<open>unescape\<close> is the character a two-character escape of double-quote mode
  stands for.
\<close>

definition flush :: "jsstring \<Rightarrow> jsstring list" where
  "flush cur = (if cur = [] then [] else [cur])"

definition unescape :: "nat \<Rightarrow> nat" where
  "unescape x = (if [x] = str ''n'' then LF else if [x] = str ''t'' then TAB else x)"

fun tokens_spec :: "mode \<Rightarrow> jsstring \<Rightarrow> jsstring \<Rightarrow> jsstring list" where
  "tokens_spec m cur [] = flush cur"
| "tokens_spec none cur (c # cs) =
     (if is_space c then flush cur @ tokens_spec none [] cs
      else if c = SQUOTE then tokens_spec single cur cs
      else if c = DQUOTE then tokens_spec double cur cs
      else tokens_spec none (cur @ [c]) cs)"
| "tokens_spec single cur (c # cs) =
     (if c = SQUOTE then tokens_spec none cur cs
      else tokens_spec single (cur @ [c]) cs)"
| "tokens_spec double cur [c] =
     (if c = DQUOTE \<or> c = BACKSLASH then flush cur else flush (cur @ [c]))"
| "tokens_spec double cur (c # x # cs) =
     (if c = DQUOTE then tokens_spec none cur (x # cs)
      else if c = BACKSLASH then tokens_spec double (cur @ [unescape x]) cs
      else tokens_spec double (cur @ [c]) (x # cs))"

definition tokenize_spec :: "jsstring \<Rightarrow> jsstring list" where
  "tokenize_spec input = tokens_spec none [] input"

section \<open>terminal.ts: paths\<close>

text \<open>\<open>cwd.replace(/\/+$/, '')\<close>: the string without its trailing slashes.\<close>

definition strip_trailing_slashes :: "jsstring \<Rightarrow> jsstring" where
  "strip_trailing_slashes s = rev (dropWhile (\<lambda>c. c = SLASH) (rev s))"

text \<open>\<open>resolvePath\<close>, lines 518 to 522.\<close>

definition resolvePath :: "jsstring \<Rightarrow> jsstring \<Rightarrow> jsstring" where
  "resolvePath cwd p =
     (if p = [] \<or> p = str ''.'' then cwd
      else if take 1 p = str ''/'' then p
      else strip_trailing_slashes cwd @ str ''/'' @ p)"

text \<open>
  \<open>normalizePath\<close>, lines 524 to 538. \<open>stack.pop()\<close> on an empty array does nothing,
  which is \<open>butlast []  = []\<close>.
\<close>

definition normalize_step :: "jsstring \<Rightarrow> jsstring list \<Rightarrow> jsstring list" where
  "normalize_step part stack =
     (if part = str ''.'' then stack
      else if part = str ''..'' then butlast stack
      else stack @ [part])"

definition normalizePath :: "jsstring \<Rightarrow> jsstring" where
  "normalizePath path =
     (let parts = filter (\<lambda>x. length x > 0) (split SLASH path);
          stack = fold normalize_step parts []
      in str ''/'' @ join (str ''/'') stack)"

text \<open>Every handler resolves a path argument with \<open>normalizePath(resolvePath(this.cwd, p))\<close>.\<close>

definition resolve :: "jsstring \<Rightarrow> jsstring \<Rightarrow> jsstring" where
  "resolve cwd p = normalizePath (resolvePath cwd p)"

subsection \<open>Normalisation as the specification words it\<close>

text \<open>
  The segments are read one by one with the stack of kept segments (its top first): an
  empty segment and \<open>.\<close> are dropped, \<open>..\<close> pops the stack if it has a top, any other
  segment is pushed. The kept segments are joined again behind a leading slash.
\<close>

fun normalize_segments :: "jsstring list \<Rightarrow> jsstring list \<Rightarrow> jsstring list" where
  "normalize_segments stk [] = rev stk"
| "normalize_segments stk (s # ss) =
     (if s = [] \<or> s = str ''.'' then normalize_segments stk ss
      else if s = str ''..'' then normalize_segments (tl stk) ss
      else normalize_segments (s # stk) ss)"

definition normalizePath_spec :: "jsstring \<Rightarrow> jsstring" where
  "normalizePath_spec path = SLASH # join [SLASH] (normalize_segments [] (split SLASH path))"

text \<open>A segment of a normalized path: not empty, without a slash, neither \<open>.\<close> nor \<open>..\<close>.\<close>

definition seg_ok :: "jsstring \<Rightarrow> bool" where
  "seg_ok s = (s \<noteq> [] \<and> SLASH \<notin> set s \<and> s \<noteq> str ''.'' \<and> s \<noteq> str ''..'')"

text \<open>
  An absolute normalized path: a slash followed by segments that are joined by single
  slashes, so the root is \<open>/\<close> alone and no other path ends in a slash.
\<close>

definition is_normalized :: "jsstring \<Rightarrow> bool" where
  "is_normalized path =
     (path = [SLASH] \<or>
      (take 1 path = [SLASH] \<and> list_all seg_ok (split SLASH (drop 1 path))))"

section \<open>terminal.ts: the terminal\<close>

text \<open>\<open>TerminalResult\<close> with \<open>ok\<close> and \<open>fail\<close>, lines 5 to 9 and 443 to 449.\<close>

record terminal_result =
  stdout :: jsstring
  stderr :: jsstring
  code :: int

definition ok :: "jsstring \<Rightarrow> terminal_result" where
  "ok out = \<lparr>stdout = out, stderr = [], code = 0\<rparr>"

definition fail :: "jsstring \<Rightarrow> terminal_result" where
  "fail err = \<lparr>stdout = [], stderr = err, code = 1\<rparr>"

text \<open>The result of \<open>fs_stat\<close>; the field \<open>size\<close> is called \<open>size_bytes\<close> here.\<close>

record stat =
  is_dir :: bool
  is_file :: bool
  size_bytes :: nat

text \<open>
  \<open>KernelClient\<close> is imported from kernelClient.ts as a type only, and the terminal only
  awaits its methods: it is a parameter of the model. \<open>'k\<close> is the state of the storage
  engine behind the client and \<open>'b\<close> the type of file contents (\<open>Uint8Array\<close>). A promise
  that rejects is a result \<open>Inl message\<close>, or \<open>Some message\<close> for the methods that
  resolve to nothing; the methods that can change the storage also return its next state.
\<close>

record ('k, 'b) kernel_client =
  kernel_hello :: "'k \<Rightarrow> jsstring \<Rightarrow> jsstring + jsstring"
  kernel_fs_stat :: "'k \<Rightarrow> jsstring \<Rightarrow> jsstring + stat"
  kernel_fs_readdir :: "'k \<Rightarrow> jsstring \<Rightarrow> jsstring + jsstring list"
  kernel_fs_read_file :: "'k \<Rightarrow> jsstring \<Rightarrow> jsstring + 'b"
  kernel_fs_write_file :: "'k \<Rightarrow> jsstring \<Rightarrow> 'b \<Rightarrow> jsstring option \<times> 'k"
  kernel_fs_mkdir :: "'k \<Rightarrow> jsstring \<Rightarrow> jsstring option \<times> 'k"
  kernel_fs_rm :: "'k \<Rightarrow> jsstring \<Rightarrow> jsstring option \<times> 'k"
  kernel_fs_rmdir :: "'k \<Rightarrow> jsstring \<Rightarrow> jsstring option \<times> 'k"
  kernel_fs_mv :: "'k \<Rightarrow> jsstring \<Rightarrow> jsstring \<Rightarrow> jsstring option \<times> 'k"
  kernel_fs_cp :: "'k \<Rightarrow> jsstring \<Rightarrow> jsstring \<Rightarrow> jsstring option \<times> 'k"

text \<open>
  What else the terminal takes from its surroundings: the kernel client, \<open>TextEncoder\<close>
  and \<open>TextDecoder\<close>, and \<open>clearDatabase\<close> of idbDriver.ts, given by the message it
  rejects with, if it does.
\<close>

record ('k, 'b) env =
  kernel :: "('k, 'b) kernel_client"
  encode :: "jsstring \<Rightarrow> 'b"
  decode :: "'b \<Rightarrow> jsstring"
  clearDatabase :: "jsstring option"

text \<open>What a handler asks of the window: the hooks \<open>openFile\<close> and \<open>openEditor\<close>, the
  clearing of the database and the reload of the page.\<close>

datatype effect = OpenFile jsstring | OpenEditor jsstring | ClearDatabase | Reload

text \<open>
  The fields of \<open>Terminal\<close> (the handler table is \<open>registerBuiltins\<close> below), the state
  of the storage behind \<open>this.kernel\<close> and the effects asked of the window so far.
\<close>

record 'k terminal =
  cwd :: jsstring
  promptStr :: jsstring
  clearScreenCode :: jsstring
  history :: "jsstring list"
  kstate :: 'k
  effects :: "effect list"

definition prompt :: "'k terminal \<Rightarrow> jsstring" where
  "prompt t = promptStr t @ str '':'' @ cwd t @ str ''$''"

text \<open>\<open>args[0]\<close> is \<open>undefined\<close> on an empty array; \<open>arg0\<close> is \<open>None\<close> then.\<close>

definition arg0 :: "jsstring list \<Rightarrow> jsstring option" where
  "arg0 args = (case args of [] \<Rightarrow> None | a # _ \<Rightarrow> Some a)"

text \<open>A number in a template literal, for the sizes of files: its decimal digits.\<close>

function show_nat :: "nat \<Rightarrow> jsstring" where
  "show_nat n = (if n < 10 then [48 + n] else show_nat (n div 10) @ [48 + n mod 10])"
  by pat_completeness auto
termination
  by (relation "measure id") auto

declare show_nat.simps [simp del]

subsection \<open>buildTree\<close>

text \<open>
  The connectors and indentations of the tree: \<open>U+2514 U+2500 U+2500 SPACE\<close> before the
  last entry, \<open>U+251C U+2500 U+2500 SPACE\<close> before any other, and below a directory
  four spaces, or \<open>U+2502\<close> and three spaces when more entries follow.
\<close>

definition connector :: "bool \<Rightarrow> jsstring" where
  "connector isLast = (if isLast then [0x2514, 0x2500, 0x2500, 0x20] else [0x251C, 0x2500, 0x2500, 0x20])"

definition indent :: "bool \<Rightarrow> jsstring" where
  "indent isLast = (if isLast then [0x20, 0x20, 0x20, 0x20] else [0x2502, 0x20, 0x20, 0x20])"

text \<open>The template \<open>${path === '/' ? '' : path}/${entry}\<close>.\<close>

definition entryPath :: "jsstring \<Rightarrow> jsstring \<Rightarrow> jsstring" where
  "entryPath path entry = (if path = str ''/'' then [] else path) @ str ''/'' @ entry"

text \<open>
  The first loop of \<open>buildTree\<close> puts an entry among the directories when its
  \<open>fs_stat\<close> resolves with \<open>is_dir\<close>, and among the files when it resolves otherwise or
  rejects.
\<close>

definition stat_is_dir :: "('k, 'b) kernel_client \<Rightarrow> 'k \<Rightarrow> jsstring \<Rightarrow> bool" where
  "stat_is_dir K k p = (case kernel_fs_stat K k p of Inl e \<Rightarrow> False | Inr st \<Rightarrow> is_dir st)"

text \<open>
  \<open>Terminal.buildTree\<close>, lines 384 to 440. The recursion follows the answers of the
  kernel, so it has no bound of its own: \<open>fuel\<close> bounds the depth of the calls, and
  \<open>None\<close> is a call that did not return within it. \<open>buildTree_entries\<close> is the second
  loop, over the rest of \<open>sorted\<close> from index \<open>i\<close> on; it returns the lines it pushes
  (\<open>pfx\<close> is the parameter \<open>prefix\<close>).
  \<open>fs_readdir\<close> and \<open>fs_stat\<close> do not change the storage, so both loops see one state.
\<close>

fun buildTree :: "('k, 'b) kernel_client \<Rightarrow> 'k \<Rightarrow> nat \<Rightarrow> jsstring \<Rightarrow> jsstring \<Rightarrow> bool \<Rightarrow> jsstring option"
  and buildTree_entries :: "('k, 'b) kernel_client \<Rightarrow> 'k \<Rightarrow> nat \<Rightarrow> jsstring \<Rightarrow> jsstring \<Rightarrow> jsstring list \<Rightarrow> jsstring list option"
where
  "buildTree K k 0 path pfx isRoot = None"
| "buildTree K k (Suc fuel) path pfx isRoot =
     (let lines = (if isRoot then [path] else []) in
      case kernel_fs_readdir K k path of
        Inl e \<Rightarrow> Some (join [LF] lines)
      | Inr entries \<Rightarrow>
          (let dirEntries = filter (\<lambda>entry. stat_is_dir K k (entryPath path entry)) entries;
               fileEntries = filter (\<lambda>entry. \<not> stat_is_dir K k (entryPath path entry)) entries;
               sorted = sort dirEntries @ sort fileEntries
           in case buildTree_entries K k fuel path pfx sorted of
                None \<Rightarrow> None
              | Some pushed \<Rightarrow> Some (join [LF] (lines @ pushed))))"
| "buildTree_entries K k fuel path pfx [] = Some []"
| "buildTree_entries K k fuel path pfx (entry # rest) =
     (let isLast = (rest = []) in
      case kernel_fs_stat K k (entryPath path entry) of
        Inl e \<Rightarrow>
          (case buildTree_entries K k fuel path pfx rest of
             None \<Rightarrow> None
           | Some later \<Rightarrow> Some ((pfx @ connector isLast @ entry) # later))
      | Inr st \<Rightarrow>
          if is_dir st then
            (case buildTree K k fuel (entryPath path entry) (pfx @ indent isLast) False of
               None \<Rightarrow> None
             | Some subTree \<Rightarrow>
                 (let subLines = filter (\<lambda>line. length line > 0) (split LF subTree) in
                  case buildTree_entries K k fuel path pfx rest of
                    None \<Rightarrow> None
                  | Some later \<Rightarrow>
                      Some ((pfx @ connector isLast @ entry @ str ''/'') # subLines @ later)))
          else
            (case buildTree_entries K k fuel path pfx rest of
               None \<Rightarrow> None
             | Some later \<Rightarrow> Some ((pfx @ connector isLast @ entry) # later)))"

subsection \<open>The built-in commands\<close>

text \<open>
  A handler takes the arguments and the terminal and returns its \<open>TerminalResult\<close>
  (\<open>Inr\<close>), or the message of an exception it lets escape (\<open>Inl\<close>), with the terminal
  afterwards. \<open>target_path\<close> is \<open>normalizePath(resolvePath(this.cwd, args[i]))\<close>, where
  \<open>resolvePath\<close> returns \<open>cwd\<close> for an argument that is \<open>undefined\<close>.
\<close>

type_synonym ('k, 'b) handler =
  "('k, 'b) env \<Rightarrow> jsstring list \<Rightarrow> 'k terminal \<Rightarrow> (jsstring + terminal_result) \<times> 'k terminal"

text \<open>
  A handler whose run is bounded by fuel: \<open>None\<close> when it has not returned within the
  fuel.
\<close>

type_synonym ('k, 'b) fueled_handler =
  "nat \<Rightarrow> ('k, 'b) env \<Rightarrow> jsstring list \<Rightarrow> 'k terminal \<Rightarrow> ((jsstring + terminal_result) \<times> 'k terminal) option"

definition arg_at :: "jsstring list \<Rightarrow> nat \<Rightarrow> jsstring option" where
  "arg_at args i = (if i < length args then Some (args ! i) else None)"

definition target_path :: "'k terminal \<Rightarrow> jsstring option \<Rightarrow> jsstring" where
  "target_path t a =
     normalizePath (case a of None \<Rightarrow> cwd t | Some p \<Rightarrow> resolvePath (cwd t) p)"

text \<open>A handler that awaits one storage-changing call and turns a rejection into \<open>fail\<close>.\<close>

definition settle :: "'k terminal \<Rightarrow> jsstring option \<times> 'k \<Rightarrow> (jsstring + terminal_result) \<times> 'k terminal" where
  "settle t r =
     (case fst r of
        None \<Rightarrow> (Inr (ok []), t\<lparr>kstate := snd r\<rparr>)
      | Some message \<Rightarrow> (Inr (fail message), t\<lparr>kstate := snd r\<rparr>))"

definition help_text :: "jsstring list" where
  "help_text =
     [str ''Commands:'',
      str ''  help                   - Show this help message'',
      str ''  clear                  - Clear the terminal'',
      str ''  hello <name>           - Greet someone'',
      str ''  pwd                    - Print working directory'',
      str ''  cd <path>              - Change directory'',
      str ''  ls [path]              - List directory contents'',
      str ''  tree [path]            - Display directory tree'',
      str ''  mkdir <path>           - Create a directory'',
      str ''  cat <file>             - Display file contents'',
      str ''  open <file>            - Open file in text viewer'',
      str ''  edit <file>            - Edit file in text editor'',
      str ''  echo <text> > <file>   - Write text to file'',
      str ''  rm <file>              - Remove a file'',
      str ''  rmdir <dir>            - Remove an empty directory'',
      str ''  mv <from> <to>         - Move/rename file or directory'',
      str ''  cp <from> <to>         - Copy a file'',
      str ''  stat <path>            - Show file/directory information'',
      str ''  reset                  - Clear terminal (same as clear)'',
      str ''  sudo reset --confirm   - Clear filesystem and reload'',
      [],
      str ''Examples:'',
      str ''  mkdir /docs'',
      str ''  echo '' @ [DQUOTE] @ str ''Hello World'' @ [DQUOTE] @ str '' > /docs/hello.txt'',
      str ''  cat /docs/hello.txt'',
      str ''  tree /docs'']"

definition help_handler :: "('k, 'b) handler" where
  "help_handler env args t = (Inr (ok (join [LF] help_text)), t)"

definition clear_handler :: "('k, 'b) handler" where
  "clear_handler env args t = (Inr (ok (clearScreenCode t)), t)"

definition reset_handler :: "('k, 'b) handler" where
  "reset_handler env args t =
     (Inr (fail (str ''Permission denied. Use '' @ [DQUOTE] @ str ''sudo reset'' @ [DQUOTE]
        @ str '' to reset the filesystem.'')), t)"

definition sudo_handler :: "('k, 'b) handler" where
  "sudo_handler env args t =
     (case args of
        [] \<Rightarrow> (Inr (fail (str ''usage: sudo <command> [args...]'')), t)
      | subCommand # _ \<Rightarrow>
          if subCommand = str ''reset'' then
            (let hasConfirm = (str ''--confirm'' \<in> set args) in
             if \<not> hasConfirm then
               (Inr (fail (join [LF]
                  [str ''WARNING: This will permanently delete all files and directories!'',
                   [],
                   str ''If you are sure, type: sudo reset --confirm''])), t)
             else
               (case clearDatabase env of
                  None \<Rightarrow>
                    (Inr (ok (str ''Resetting filesystem...'')),
                     t\<lparr>effects := effects t @ [ClearDatabase, Reload]\<rparr>)
                | Some message \<Rightarrow>
                    (Inr (fail (str ''Failed to reset: '' @ message)),
                     t\<lparr>effects := effects t @ [ClearDatabase]\<rparr>)))
          else (Inr (fail (str ''sudo: '' @ subCommand @ str '': command not found'')), t))"

definition hello_handler :: "('k, 'b) handler" where
  "hello_handler env args t =
     (let joined = join (str '' '') args;
          name = (if joined = [] then str ''world'' else joined)
      in case kernel_hello (kernel env) (kstate t) name of
           Inl message \<Rightarrow> (Inl message, t)
         | Inr res \<Rightarrow> (Inr (ok res), t))"

definition pwd_handler :: "('k, 'b) handler" where
  "pwd_handler env args t = (Inr (ok (cwd t)), t)"

definition open_handler :: "('k, 'b) handler" where
  "open_handler env args t =
     (if length args = 0 then (Inr (fail (str ''usage: open <file>'')), t)
      else
        (let filePath = target_path t (arg_at args 0) in
         case kernel_fs_stat (kernel env) (kstate t) filePath of
           Inr st \<Rightarrow>
             if is_dir st then (Inr (fail (filePath @ str '' is a directory, not a file'')), t)
             else (Inr (ok (str ''Opening '' @ filePath @ str ''...'')),
                   t\<lparr>effects := effects t @ [OpenFile filePath]\<rparr>)
         | Inl message \<Rightarrow>
             (Inr (fail (str ''cannot open '' @ [SQUOTE] @ filePath @ [SQUOTE] @ str '': '' @ message)), t)))"

definition edit_handler :: "('k, 'b) handler" where
  "edit_handler env args t =
     (if length args = 0 then (Inr (fail (str ''usage: edit <file>'')), t)
      else
        (let filePath = target_path t (arg_at args 0);
             opened = (\<lambda>t'. (Inr (ok (str ''Editing '' @ filePath @ str ''...'')),
                             t'\<lparr>effects := effects t' @ [OpenEditor filePath]\<rparr>))
         in case kernel_fs_stat (kernel env) (kstate t) filePath of
           Inr st \<Rightarrow>
             if is_dir st then (Inr (fail (filePath @ str '' is a directory, not a file'')), t)
             else opened t
         | Inl e \<Rightarrow>
             (case kernel_fs_write_file (kernel env) (kstate t) filePath (encode env []) of
                (Some message, k') \<Rightarrow> (Inl message, t\<lparr>kstate := k'\<rparr>)
              | (None, k') \<Rightarrow> opened (t\<lparr>kstate := k'\<rparr>))))"

text \<open>The \<open>cd\<close> handler, lines 198 to 213: \<open>args[0] ?? '/'\<close> is \<open>/\<close> without a first argument.\<close>

definition cd_handler :: "('k, 'b) handler" where
  "cd_handler env args t =
     (let target = (case arg0 args of None \<Rightarrow> str ''/'' | Some a \<Rightarrow> a);
          newPath = normalizePath (resolvePath (cwd t) target)
      in case kernel_fs_stat (kernel env) (kstate t) newPath of
           Inr st \<Rightarrow>
             if \<not> is_dir st then (Inr (fail (str ''not a directory: '' @ newPath)), t)
             else (Inr (ok []), t\<lparr>cwd := newPath\<rparr>)
         | Inl e \<Rightarrow> (Inr (fail (str ''directory not found: '' @ newPath)), t))"

text \<open>\<open>args[0] ? ... : this.cwd\<close>: a first argument that is absent or empty gives \<open>cwd\<close>.\<close>

definition target_or_cwd :: "'k terminal \<Rightarrow> jsstring list \<Rightarrow> jsstring" where
  "target_or_cwd t args =
     (case arg0 args of
        None \<Rightarrow> cwd t
      | Some a \<Rightarrow> if a = [] then cwd t else normalizePath (resolvePath (cwd t) a))"

definition ls_handler :: "('k, 'b) handler" where
  "ls_handler env args t =
     (let target = target_or_cwd t args in
      case kernel_fs_readdir (kernel env) (kstate t) target of
        Inr entries \<Rightarrow>
          if length entries = 0 then (Inr (ok []), t) else (Inr (ok (join [LF] entries)), t)
      | Inl message \<Rightarrow> (Inr (fail message), t))"

text \<open>
  The \<open>tree\<close> handler, lines 230 to 240. \<open>buildTree\<close> lets no exception escape, so the
  \<open>catch\<close> of the handler is never entered; \<open>None\<close> is a \<open>buildTree\<close> that did not
  return within the fuel.
\<close>

definition tree_handler :: "('k, 'b) fueled_handler" where
  "tree_handler fuel env args t =
     (let target = target_or_cwd t args in
      case buildTree (kernel env) (kstate t) fuel target [] True of
        None \<Rightarrow> None
      | Some tree \<Rightarrow> Some (Inr (ok tree), t))"

definition mkdir_handler :: "('k, 'b) handler" where
  "mkdir_handler env args t =
     (if length args = 0 then (Inr (fail (str ''usage: mkdir <path>'')), t)
      else settle t (kernel_fs_mkdir (kernel env) (kstate t) (target_path t (arg_at args 0))))"

definition cat_handler :: "('k, 'b) handler" where
  "cat_handler env args t =
     (if length args = 0 then (Inr (fail (str ''usage: cat <file>'')), t)
      else
        (case kernel_fs_read_file (kernel env) (kstate t) (target_path t (arg_at args 0)) of
           Inr data \<Rightarrow> (Inr (ok (decode env data)), t)
         | Inl message \<Rightarrow> (Inr (fail message), t)))"

text \<open>
  \<open>args.indexOf('>')\<close> is \<open>-1\<close> when no argument is \<open>>\<close>, and \<open>args.slice(0, e)\<close>
  with a negative \<open>e\<close> ends \<open>-e\<close> elements before the end of the array.
\<close>

fun indexOf :: "jsstring list \<Rightarrow> jsstring \<Rightarrow> int" where
  "indexOf [] x = -1"
| "indexOf (a # as) x = (if a = x then 0 else (let r = indexOf as x in if r = -1 then -1 else r + 1))"

definition slice0 :: "jsstring list \<Rightarrow> int \<Rightarrow> jsstring list" where
  "slice0 args e = (if e < 0 then take (nat (int (length args) + e)) args else take (nat e) args)"

text \<open>The \<open>echo\<close> handler, lines 275 to 297.\<close>

definition echo_handler :: "('k, 'b) handler" where
  "echo_handler env args t =
     (let redirectIndex = indexOf args (str ''>'') in
      if redirectIndex = int (length args) - 1 then
        (Inr (fail (str ''usage: echo <text> > <file>'')), t)
      else
        (let text = join (str '' '') (slice0 args redirectIndex);
             file = arg_at args (nat (redirectIndex + 1));
             path = target_path t file;
             data = encode env text
         in settle t (kernel_fs_write_file (kernel env) (kstate t) path data)))"

definition rm_handler :: "('k, 'b) handler" where
  "rm_handler env args t =
     (if length args = 0 then (Inr (fail (str ''usage: rm <file>'')), t)
      else settle t (kernel_fs_rm (kernel env) (kstate t) (target_path t (arg_at args 0))))"

definition rmdir_handler :: "('k, 'b) handler" where
  "rmdir_handler env args t =
     (if length args = 0 then (Inr (fail (str ''usage: rmdir <directory>'')), t)
      else settle t (kernel_fs_rmdir (kernel env) (kstate t) (target_path t (arg_at args 0))))"

definition mv_handler :: "('k, 'b) handler" where
  "mv_handler env args t =
     (if length args < 2 then (Inr (fail (str ''usage: mv <from> <to>'')), t)
      else settle t (kernel_fs_mv (kernel env) (kstate t)
             (target_path t (arg_at args 0)) (target_path t (arg_at args 1))))"

definition cp_handler :: "('k, 'b) handler" where
  "cp_handler env args t =
     (if length args < 2 then (Inr (fail (str ''usage: cp <from> <to>'')), t)
      else settle t (kernel_fs_cp (kernel env) (kstate t)
             (target_path t (arg_at args 0)) (target_path t (arg_at args 1))))"

definition stat_handler :: "('k, 'b) handler" where
  "stat_handler env args t =
     (if length args = 0 then (Inr (fail (str ''usage: stat <path>'')), t)
      else
        (let path = target_path t (arg_at args 0) in
         case kernel_fs_stat (kernel env) (kstate t) path of
           Inr st \<Rightarrow>
             (let type = (if is_dir st then str ''directory'' else str ''file'');
                  lines = [str ''Path: '' @ path, str ''Type: '' @ type,
                           str ''Size: '' @ show_nat (size_bytes st) @ str '' bytes'']
              in (Inr (ok (join [LF] lines)), t))
         | Inl message \<Rightarrow> (Inr (fail message), t)))"

subsection \<open>registerBuiltins and exec\<close>

text \<open>
  \<open>registerBuiltins\<close>, lines 70 to 382: the table \<open>this.handlers\<close>, in the order of the
  \<open>set\<close> calls. Only \<open>tree\<close> needs the fuel.
\<close>

definition always :: "('k, 'b) handler \<Rightarrow> ('k, 'b) fueled_handler" where
  "always h fuel env args t = Some (h env args t)"

definition registerBuiltins :: "(jsstring \<times> ('k, 'b) fueled_handler) list" where
  "registerBuiltins =
     [(str ''help'', always help_handler),
      (str ''clear'', always clear_handler),
      (str ''reset'', always reset_handler),
      (str ''sudo'', always sudo_handler),
      (str ''hello'', always hello_handler),
      (str ''pwd'', always pwd_handler),
      (str ''open'', always open_handler),
      (str ''edit'', always edit_handler),
      (str ''cd'', always cd_handler),
      (str ''ls'', always ls_handler),
      (str ''tree'', tree_handler),
      (str ''mkdir'', always mkdir_handler),
      (str ''cat'', always cat_handler),
      (str ''echo'', always echo_handler),
      (str ''rm'', always rm_handler),
      (str ''rmdir'', always rmdir_handler),
      (str ''mv'', always mv_handler),
      (str ''cp'', always cp_handler),
      (str ''stat'', always stat_handler)]"

text \<open>
  \<open>Terminal.exec\<close>, lines 47 to 68. The result is \<open>None\<close> when the handler did not
  return within the fuel; the terminal returned then is the one the handler was started
  on, which already holds the new history entry.
\<close>

definition exec ::
  "('k, 'b) env \<Rightarrow> nat \<Rightarrow> jsstring \<Rightarrow> 'k terminal \<Rightarrow> terminal_result option \<times> 'k terminal" where
  "exec env fuel line t =
     (let trimmed = trim line in
      if trimmed = [] then (Some (ok []), t)
      else
        (let t1 = t\<lparr>history := history t @ [trimmed]\<rparr>;
             tokens = tokenize trimmed
         in case tokens of
              [] \<Rightarrow> (Some (ok []), t1)
            | cmd # args \<Rightarrow>
                (case map_of registerBuiltins cmd of
                   None \<Rightarrow> (Some (fail (str ''command not found: '' @ cmd)), t1)
                 | Some handler \<Rightarrow>
                     (case handler fuel env args t1 of
                        None \<Rightarrow> (None, t1)
                      | Some (Inr res, t2) \<Rightarrow> (Some res, t2)
                      | Some (Inl message, t2) \<Rightarrow> (Some (fail message), t2)))))"

section \<open>kernel.worker.ts: the message handler\<close>

text \<open>
  A message can hold anything in its fields \<open>id\<close> and \<open>type\<close>; \<open>truthy\<close> is what
  \<open>!x\<close> tests. Numbers other than \<open>NaN\<close> are given by an integer here.
\<close>

datatype jsval = JUndefined | JNull | JBool bool | JNum int | JNaN | JStr jsstring | JObject

fun truthy :: "jsval \<Rightarrow> bool" where
  "truthy JUndefined = False"
| "truthy JNull = False"
| "truthy (JBool b) = b"
| "truthy (JNum n) = (n \<noteq> 0)"
| "truthy JNaN = False"
| "truthy (JStr s) = (s \<noteq> [])"
| "truthy JObject = True"

text \<open>
  \<open>KernelRequest\<close>, imported from protocol.ts as a type: the fields the handler reads.
  A field that a request type does not carry is not read for that type.
\<close>

record 'b request =
  req_id :: jsval
  req_type :: jsval
  req_name :: jsstring
  req_path :: jsstring
  req_data :: 'b
  req_from :: jsstring
  req_to :: jsstring

text \<open>
  What \<open>result\<close> holds: it is declared without a value, so it stays \<open>undefined\<close> in the
  branches that do not assign it.
\<close>

datatype 'b payload = Undefined | Greeting jsstring | Names "jsstring list" | Bytes 'b | Stat stat

text \<open>
  \<open>KernelResponse\<close>: the two object literals of the handler. A field that a literal does
  not have is \<open>None\<close>; the field \<open>result\<close> of the first literal is there whatever it
  holds. Of an error the message is kept (the stack is not modelled).
\<close>

record 'b response =
  resp_id :: jsval
  resp_ok :: bool
  resp_result :: "'b payload option"
  resp_error :: "jsstring option"

text \<open>
  \<open>KernelAPI\<close>, lines 10 to 23: the functions of the WebAssembly module, which the
  worker imports at run time; they are parameters of the model. A function that throws
  gives \<open>Inl message\<close>, or
  \<open>Some message\<close> when it returns nothing; one that can change the tree also gives the
  tree afterwards. With them come \<open>__idb_set_bytes\<close> (installed by \<open>installIdbGlobals\<close> of
  idbDriver.ts) on a store \<open>'s\<close>, the key \<open>FS_KEY\<close> of the configuration and
  \<open>JSON.stringify\<close> of a request.
\<close>

record ('fs, 'b, 's) worker_env =
  api_hello :: "'fs \<Rightarrow> jsstring \<Rightarrow> jsstring + jsstring"
  api_fs_dump_state :: "'fs \<Rightarrow> jsstring + 'b"
  api_fs_mkdir :: "'fs \<Rightarrow> jsstring \<Rightarrow> jsstring option \<times> 'fs"
  api_fs_read_file :: "'fs \<Rightarrow> jsstring \<Rightarrow> jsstring + 'b"
  api_fs_readdir :: "'fs \<Rightarrow> jsstring \<Rightarrow> jsstring + jsstring list"
  api_fs_write_file :: "'fs \<Rightarrow> jsstring \<Rightarrow> 'b \<Rightarrow> jsstring option \<times> 'fs"
  api_fs_stat :: "'fs \<Rightarrow> jsstring \<Rightarrow> jsstring + stat"
  api_fs_rm :: "'fs \<Rightarrow> jsstring \<Rightarrow> jsstring option \<times> 'fs"
  api_fs_rmdir :: "'fs \<Rightarrow> jsstring \<Rightarrow> jsstring option \<times> 'fs"
  api_fs_mv :: "'fs \<Rightarrow> jsstring \<Rightarrow> jsstring \<Rightarrow> jsstring option \<times> 'fs"
  api_fs_cp :: "'fs \<Rightarrow> jsstring \<Rightarrow> jsstring \<Rightarrow> jsstring option \<times> 'fs"
  idb_set_bytes :: "'s \<Rightarrow> jsstring \<Rightarrow> 'b \<Rightarrow> jsstring option \<times> 's"
  FS_KEY :: jsstring
  stringify :: "'b request \<Rightarrow> jsstring"

text \<open>What the worker does that can be seen from outside it, in the order it does it.\<close>

datatype 'b event = IdbSetBytes jsstring 'b | PostMessage "'b response"

text \<open>
  The worker: whether \<open>api\<close> is set (it is \<open>null\<close> until the start-up has loaded the
  module), the tree in the module, the byte store and the events so far.
\<close>

record ('fs, 'b, 's) worker =
  api_set :: bool
  tree :: 'fs
  store :: 's
  trace :: "'b event list"

text \<open>
  \<open>persist\<close>, lines 436 to 440: \<open>Inl message\<close> when it throws. The call of
  \<open>idbSetBytes\<close> is recorded when it is made; \<open>await\<close> returns once it has settled.
\<close>

definition persist ::
  "('fs, 'b, 's) worker_env \<Rightarrow> ('fs, 'b, 's) worker \<Rightarrow> jsstring option \<times> ('fs, 'b, 's) worker" where
  "persist E w =
     (if \<not> api_set w then (Some (str ''Kernel not initialized''), w)
      else
        (case api_fs_dump_state E (tree w) of
           Inl message \<Rightarrow> (Some message, w)
         | Inr bytes \<Rightarrow>
             (case idb_set_bytes E (store w) (FS_KEY E) bytes of
                (r, s') \<Rightarrow> (r, w\<lparr>store := s', trace := trace w @ [IdbSetBytes (FS_KEY E) bytes]\<rparr>))))"

text \<open>
  The \<open>switch\<close> of the handler, lines 457 to 508: what is thrown (\<open>Inl\<close>) or the value
  of \<open>result\<close> (\<open>Inr\<close>), the tree afterwards and \<open>needsPersist\<close>.
\<close>

definition mutated :: "jsstring option \<times> 'fs \<Rightarrow> (jsstring + 'b payload) \<times> 'fs \<times> bool" where
  "mutated r =
     (case fst r of
        Some message \<Rightarrow> (Inl message, snd r, False)
      | None \<Rightarrow> (Inr Undefined, snd r, True))"

definition answered :: "('a \<Rightarrow> 'b payload) \<Rightarrow> 'fs \<Rightarrow> jsstring + 'a \<Rightarrow> (jsstring + 'b payload) \<times> 'fs \<times> bool" where
  "answered wrap fs r =
     (case r of
        Inl message \<Rightarrow> (Inl message, fs, False)
      | Inr v \<Rightarrow> (Inr (wrap v), fs, False))"

definition switch_type ::
  "('fs, 'b, 's) worker_env \<Rightarrow> 'b request \<Rightarrow> 'fs \<Rightarrow> (jsstring + 'b payload) \<times> 'fs \<times> bool" where
  "switch_type E req fs =
     (if req_type req = JStr (str ''hello'') then answered Greeting fs (api_hello E fs (req_name req))
      else if req_type req = JStr (str ''fs_mkdir'') then mutated (api_fs_mkdir E fs (req_path req))
      else if req_type req = JStr (str ''fs_readdir'') then answered Names fs (api_fs_readdir E fs (req_path req))
      else if req_type req = JStr (str ''fs_write_file'')
        then mutated (api_fs_write_file E fs (req_path req) (req_data req))
      else if req_type req = JStr (str ''fs_read_file'') then answered Bytes fs (api_fs_read_file E fs (req_path req))
      else if req_type req = JStr (str ''fs_stat'') then answered Stat fs (api_fs_stat E fs (req_path req))
      else if req_type req = JStr (str ''fs_rm'') then mutated (api_fs_rm E fs (req_path req))
      else if req_type req = JStr (str ''fs_rmdir'') then mutated (api_fs_rmdir E fs (req_path req))
      else if req_type req = JStr (str ''fs_mv'') then mutated (api_fs_mv E fs (req_from req) (req_to req))
      else if req_type req = JStr (str ''fs_cp'') then mutated (api_fs_cp E fs (req_from req) (req_to req))
      else (Inl (str ''Unknown request type: '' @ stringify E req), fs, False))"

definition post :: "'b response \<Rightarrow> ('fs, 'b, 's) worker \<Rightarrow> ('fs, 'b, 's) worker" where
  "post r w = w\<lparr>trace := trace w @ [PostMessage r]\<rparr>"

definition respond_ok :: "jsval \<Rightarrow> 'b payload \<Rightarrow> 'b response" where
  "respond_ok i result = \<lparr>resp_id = i, resp_ok = True, resp_result = Some result, resp_error = None\<rparr>"

definition respond_error :: "jsval \<Rightarrow> jsstring \<Rightarrow> 'b response" where
  "respond_error i message = \<lparr>resp_id = i, resp_ok = False, resp_result = None, resp_error = Some message\<rparr>"

text \<open>
  \<open>self.onmessage\<close>, lines 442 to 533, on the data of one message (\<open>None\<close> when the
  data is \<open>null\<close> or \<open>undefined\<close>). The handler is run to its end before the next
  message is looked at.
\<close>

definition onmessage ::
  "('fs, 'b, 's) worker_env \<Rightarrow> 'b request option \<Rightarrow> ('fs, 'b, 's) worker \<Rightarrow> ('fs, 'b, 's) worker" where
  "onmessage E data w =
     (case data of
        None \<Rightarrow> w
      | Some req \<Rightarrow>
          if \<not> truthy (req_id req) \<or> \<not> truthy (req_type req) then w
          else if \<not> api_set w then post (respond_error (req_id req) (str ''Kernel not initialized'')) w
          else
            (case switch_type E req (tree w) of
               (Inl message, fs', needsPersist) \<Rightarrow>
                 post (respond_error (req_id req) message) (w\<lparr>tree := fs'\<rparr>)
             | (Inr result, fs', needsPersist) \<Rightarrow>
                 if needsPersist then
                   (case persist E (w\<lparr>tree := fs'\<rparr>) of
                      (Some message, w') \<Rightarrow> post (respond_error (req_id req) message) w'
                    | (None, w') \<Rightarrow> post (respond_ok (req_id req) result) w')
                 else post (respond_ok (req_id req) result) (w\<lparr>tree := fs'\<rparr>)))"

text \<open>The response after \<open>await persist()\<close>: \<open>ok\<close> when it returned, an error when it threw.\<close>

definition settled :: "jsval \<Rightarrow> 'b payload \<Rightarrow> jsstring option \<Rightarrow> 'b response" where
  "settled i result r = (case r of None \<Rightarrow> respond_ok i result | Some message \<Rightarrow> respond_error i message)"

subsection \<open>What one message adds to the trace\<close>

definition new_events :: "('fs, 'b, 's) worker_env \<Rightarrow> 'b request option \<Rightarrow> ('fs, 'b, 's) worker \<Rightarrow> 'b event list" where
  "new_events E data w = drop (length (trace w)) (trace (onmessage E data w))"

fun responses :: "'b event list \<Rightarrow> 'b response list" where
  "responses [] = []"
| "responses (PostMessage r # es) = r # responses es"
| "responses (IdbSetBytes key bytes # es) = responses es"

fun store_writes :: "'b event list \<Rightarrow> (jsstring \<times> 'b) list" where
  "store_writes [] = []"
| "store_writes (PostMessage r # es) = store_writes es"
| "store_writes (IdbSetBytes key bytes # es) = (key, bytes) # store_writes es"

text \<open>The request types that change the tree, and those that only read.\<close>

definition is_mutating :: "jsval \<Rightarrow> bool" where
  "is_mutating ty =
     (ty = JStr (str ''fs_mkdir'') \<or> ty = JStr (str ''fs_write_file'') \<or> ty = JStr (str ''fs_rm'')
      \<or> ty = JStr (str ''fs_rmdir'') \<or> ty = JStr (str ''fs_mv'') \<or> ty = JStr (str ''fs_cp''))"

definition is_read_only :: "jsval \<Rightarrow> bool" where
  "is_read_only ty =
     (ty = JStr (str ''hello'') \<or> ty = JStr (str ''fs_readdir'') \<or> ty = JStr (str ''fs_read_file'')
      \<or> ty = JStr (str ''fs_stat''))"

section \<open>Notions of the specification\<close>

text \<open>
  The directory \<open>cd\<close> is asked for: the first argument, or \<open>/\<close> when there is none,
  resolved against \<open>cwd\<close> and normalized.
\<close>

definition cd_target :: "'k terminal \<Rightarrow> jsstring list \<Rightarrow> jsstring" where
  "cd_target t args = resolve (cwd t) (case args of [] \<Rightarrow> str ''/'' | a # _ \<Rightarrow> a)"

text \<open>A session: the lines given to \<open>exec\<close> one after the other.\<close>

fun exec_all :: "('k, 'b) env \<Rightarrow> nat \<Rightarrow> jsstring list \<Rightarrow> 'k terminal \<Rightarrow> 'k terminal" where
  "exec_all env fuel [] t = t"
| "exec_all env fuel (line # rest) t = exec_all env fuel rest (snd (exec env fuel line t))"

text \<open>
  The tree as the specification words it. The children of a directory are the entries
  that stat as directories, sorted, and then the others, sorted; a directory that cannot
  be read has none. Each child is a line of prefix, connector and name (and a slash
  for a directory), followed, for a directory, by the lines of its own children under
  the extended prefix. The fuel is used as in \<open>buildTree\<close>.
\<close>

definition children :: "('k, 'b) kernel_client \<Rightarrow> 'k \<Rightarrow> jsstring \<Rightarrow> jsstring list" where
  "children K k path =
     (case kernel_fs_readdir K k path of
        Inl e \<Rightarrow> []
      | Inr entries \<Rightarrow>
          sort (filter (\<lambda>entry. stat_is_dir K k (entryPath path entry)) entries)
          @ sort (filter (\<lambda>entry. \<not> stat_is_dir K k (entryPath path entry)) entries))"

fun tree_lines :: "('k, 'b) kernel_client \<Rightarrow> 'k \<Rightarrow> nat \<Rightarrow> jsstring \<Rightarrow> jsstring \<Rightarrow> jsstring list option"
  and child_lines :: "('k, 'b) kernel_client \<Rightarrow> 'k \<Rightarrow> nat \<Rightarrow> jsstring \<Rightarrow> jsstring \<Rightarrow> jsstring list \<Rightarrow> jsstring list option"
where
  "tree_lines K k 0 path pfx = None"
| "tree_lines K k (Suc fuel) path pfx = child_lines K k fuel path pfx (children K k path)"
| "child_lines K k fuel path pfx [] = Some []"
| "child_lines K k fuel path pfx (entry # rest) =
     (if stat_is_dir K k (entryPath path entry) then
        (case tree_lines K k fuel (entryPath path entry) (pfx @ indent (rest = [])) of
           None \<Rightarrow> None
         | Some below \<Rightarrow>
             (case child_lines K k fuel path pfx rest of
                None \<Rightarrow> None
              | Some later \<Rightarrow> Some ((pfx @ connector (rest = []) @ entry @ str ''/'') # below @ later)))
      else
        (case child_lines K k fuel path pfx rest of
           None \<Rightarrow> None
         | Some later \<Rightarrow> Some ((pfx @ connector (rest = []) @ entry) # later)))"

text \<open>No directory lists a name with a line feed in it.\<close>

definition plain_names :: "('k, 'b) kernel_client \<Rightarrow> 'k \<Rightarrow> bool" where
  "plain_names K k = (\<forall>p es. kernel_fs_readdir K k p = Inr es \<longrightarrow> list_all (\<lambda>e. LF \<notin> set e) es)"

text \<open>
  The directories nest to a finite depth: \<open>rank\<close> bounds it, as it falls from a directory
  to each entry that stats as a directory.
\<close>

definition ranked :: "('k, 'b) kernel_client \<Rightarrow> 'k \<Rightarrow> (jsstring \<Rightarrow> nat) \<Rightarrow> bool" where
  "ranked K k rank =
     (\<forall>p es. kernel_fs_readdir K k p = Inr es \<longrightarrow>
        list_all (\<lambda>e. stat_is_dir K k (entryPath p e) \<longrightarrow> rank (entryPath p e) < rank p) es)"

section \<open>A storage to run the model on\<close>

text \<open>
  The theorems below hold for every kernel client and every module. To run the model on
  concrete inputs, \<open>table_kernel\<close> answers from a table of paths: a path is bound to the
  contents of a file or to the entry names of a directory, the first binding counts,
  and a write puts a new binding in front. It stands for no part of the program.
\<close>

datatype node = FileNode jsstring | DirNode "jsstring list"

type_synonym table = "(jsstring \<times> node) list"

definition table_stat :: "table \<Rightarrow> jsstring \<Rightarrow> jsstring + stat" where
  "table_stat k p =
     (case map_of k p of
        None \<Rightarrow> Inl (str ''not found: '' @ p)
      | Some (FileNode b) \<Rightarrow> Inr \<lparr>is_dir = False, is_file = True, size_bytes = length b\<rparr>
      | Some (DirNode es) \<Rightarrow> Inr \<lparr>is_dir = True, is_file = False, size_bytes = 0\<rparr>)"

definition table_readdir :: "table \<Rightarrow> jsstring \<Rightarrow> jsstring + jsstring list" where
  "table_readdir k p =
     (case map_of k p of
        Some (DirNode es) \<Rightarrow> Inr es
      | _ \<Rightarrow> Inl (str ''not a directory: '' @ p))"

definition table_read_file :: "table \<Rightarrow> jsstring \<Rightarrow> jsstring + jsstring" where
  "table_read_file k p =
     (case map_of k p of
        Some (FileNode b) \<Rightarrow> Inr b
      | _ \<Rightarrow> Inl (str ''not a file: '' @ p))"

definition table_remove :: "table \<Rightarrow> jsstring \<Rightarrow> jsstring option \<times> table" where
  "table_remove k p =
     (case map_of k p of
        None \<Rightarrow> (Some (str ''not found: '' @ p), k)
      | Some n \<Rightarrow> (None, filter (\<lambda>b. fst b \<noteq> p) k))"

definition table_copy :: "bool \<Rightarrow> table \<Rightarrow> jsstring \<Rightarrow> jsstring \<Rightarrow> jsstring option \<times> table" where
  "table_copy keep k src dst =
     (case map_of k src of
        None \<Rightarrow> (Some (str ''not found: '' @ src), k)
      | Some n \<Rightarrow> (None, (dst, n) # (if keep then k else filter (\<lambda>b. fst b \<noteq> src) k)))"

definition table_kernel :: "(table, jsstring) kernel_client" where
  "table_kernel =
     \<lparr>kernel_hello = (\<lambda>k name. Inr (str ''Hello, '' @ name)),
      kernel_fs_stat = table_stat,
      kernel_fs_readdir = table_readdir,
      kernel_fs_read_file = table_read_file,
      kernel_fs_write_file = (\<lambda>k p b. (None, (p, FileNode b) # k)),
      kernel_fs_mkdir = (\<lambda>k p. (None, (p, DirNode []) # k)),
      kernel_fs_rm = table_remove,
      kernel_fs_rmdir = table_remove,
      kernel_fs_mv = table_copy False,
      kernel_fs_cp = table_copy True\<rparr>"

definition table_env :: "(table, jsstring) env" where
  "table_env = \<lparr>kernel = table_kernel, encode = (\<lambda>s. s), decode = (\<lambda>b. b), clearDatabase = None\<rparr>"

definition table_terminal :: "jsstring \<Rightarrow> table \<Rightarrow> table terminal" where
  "table_terminal dir k =
     \<lparr>cwd = dir, promptStr = str ''user'', clearScreenCode = [0x1B, 0x63], history = [],
      kstate = k, effects = []\<rparr>"

text \<open>The same table as the module of the worker, with a store that keeps every write.\<close>

definition table_worker_env :: "(table, jsstring, (jsstring \<times> jsstring) list) worker_env" where
  "table_worker_env =
     \<lparr>api_hello = (\<lambda>k name. Inr (str ''Hello, '' @ name)),
      api_fs_dump_state = (\<lambda>k. Inr (concat (map fst k))),
      api_fs_mkdir = (\<lambda>k p. (None, (p, DirNode []) # k)),
      api_fs_read_file = table_read_file,
      api_fs_readdir = table_readdir,
      api_fs_write_file = (\<lambda>k p b. (None, (p, FileNode b) # k)),
      api_fs_stat = table_stat,
      api_fs_rm = table_remove,
      api_fs_rmdir = table_remove,
      api_fs_mv = table_copy False,
      api_fs_cp = table_copy True,
      idb_set_bytes = (\<lambda>s key bytes. (None, (key, bytes) # s)),
      FS_KEY = str ''fs'',
      stringify = (\<lambda>req. str ''{}'')\<rparr>"

definition table_worker :: "table \<Rightarrow> (table, jsstring, (jsstring \<times> jsstring) list) worker" where
  "table_worker k = \<lparr>api_set = True, tree = k, store = [], trace = []\<rparr>"

definition table_request :: "jsval \<Rightarrow> jsval \<Rightarrow> jsstring \<Rightarrow> jsstring request" where
  "table_request i ty p =
     \<lparr>req_id = i, req_type = ty, req_name = [], req_path = p, req_data = [], req_from = [], req_to = []\<rparr>"

text \<open>
  A table where a file two levels below \<open>/d\<close> has a name with an empty line in it:
  \<open>/d\<close> holds the directory \<open>s\<close>, and \<open>s\<close> holds the file named \<open>x\<close>, line feed,
  line feed, \<open>y\<close>.
\<close>

definition blank_line_name :: jsstring where
  "blank_line_name = str ''x'' @ [LF, LF] @ str ''y''"

definition blank_line_table :: table where
  "blank_line_table =
     [(str ''/d'', DirNode [str ''s'']),
      (str ''/d/s'', DirNode [blank_line_name]),
      (str ''/d/s/'' @ blank_line_name, FileNode [])]"

text \<open>The example of the specification: \<open>/docs\<close> with the empty directory \<open>x\<close> and the file \<open>a.txt\<close>.\<close>

definition docs_table :: table where
  "docs_table =
     [(str ''/docs'', DirNode [str ''a.txt'', str ''x'']),
      (str ''/docs/x'', DirNode []),
      (str ''/docs/a.txt'', FileNode (str ''hi''))]"

definition docs_rank :: "jsstring \<Rightarrow> nat" where
  "docs_rank p = (if p = str ''/docs'' then 1 else 0)"

section \<open>Strings: evaluation and the inverse of join\<close>

lemma str_simps [simp]: "str [] = []" "str (c # cs) = of_char c # str cs"
  by (simp_all add: str_def)

lemma not_space_quote [simp]: "\<not> is_space SQUOTE" "\<not> is_space DQUOTE"
  by (simp_all add: is_space_def)

lemma drop_here: "i < length xs \<Longrightarrow> drop i xs = xs ! i # drop (Suc i) xs"
  by (simp add: Cons_nth_drop_Suc)

lemma drop_end: "\<not> i < length xs \<Longrightarrow> drop i xs = []"
  by simp

lemma split_from_no_sep: "sep \<notin> set s \<Longrightarrow> split_from sep cur s = [cur @ s]"
  by (induction s arbitrary: cur) auto

lemma split_from_append:
  "sep \<notin> set s \<Longrightarrow> split_from sep cur (s @ sep # rest) = (cur @ s) # split_from sep [] rest"
  by (induction s arbitrary: cur) auto

lemma split_from_pieces:
  "sep \<notin> set cur \<Longrightarrow> list_all (\<lambda>x. sep \<notin> set x) (split_from sep cur s)"
  by (induction s arbitrary: cur) auto

lemma split_from_not_Nil [simp]: "split_from sep cur s \<noteq> []"
  by (induction s arbitrary: cur) auto

lemma join_Cons: "xs \<noteq> [] \<Longrightarrow> join sep (x # xs) = x @ sep @ join sep xs"
  by (cases xs) simp_all

lemma join_split_from: "join [sep] (split_from sep cur s) = cur @ s"
  by (induction s arbitrary: cur) (auto simp: join_Cons)

lemma split_from_join:
  "ls \<noteq> [] \<Longrightarrow> list_all (\<lambda>s. sep \<notin> set s) ls \<Longrightarrow> split_from sep [] (join [sep] ls) = ls"
proof (induction ls)
  case Nil then show ?case by simp
next
  case (Cons x xs)
  show ?case
  proof (cases xs)
    case Nil
    then show ?thesis using Cons.prems by (simp add: split_from_no_sep)
  next
    case (Cons y ys)
    then show ?thesis
      using Cons.prems Cons.IH split_from_append [of sep x "[]" "join [sep] (y # ys)"]
      by simp
  qed
qed

section \<open>The tokenizer\<close>

text \<open>The loop of the source, started anywhere, does what the three modes say.\<close>

lemma tokenize_loop_spec:
  "tokenize_loop input out cur i m = out @ tokens_spec m cur (drop i input)"
proof (induction input out cur i m rule: tokenize_loop.induct)
  case (1 input out cur i m)
  show ?case
  proof (cases "i < length input")
    case False
    then show ?thesis by (subst tokenize_loop.simps) (simp add: flush_def)
  next
    case True
    note d = drop_here [OF True]
    show ?thesis
    proof (cases m)
      case none
      show ?thesis
        apply (subst tokenize_loop.simps)
        using True none 1(1-5) [OF True refl none]
        by (auto simp: d flush_def)
    next
      case single
      show ?thesis
        apply (subst tokenize_loop.simps)
        using True single 1(6-7) [OF True refl single]
        by (simp add: d)
    next
      case double
      show ?thesis
      proof (cases "Suc i < length input")
        case T2: True
        note d2 = drop_here [OF T2]
        show ?thesis
          apply (subst tokenize_loop.simps)
          using True T2 double 1(8-) [OF True refl double]
          by (auto simp: d d2 unescape_def)
      next
        case F2: False
        note d2 = drop_end [OF F2]
        have d3: "drop (Suc (Suc i)) input = []" using F2 by simp
        show ?thesis
          apply (subst tokenize_loop.simps)
          using True F2 double 1(8-) [OF True refl double]
          by (auto simp: d d2 d3 flush_def)
      qed
    qed
  qed
qed

lemma tokenize_refines: "tokenize input = tokenize_spec input"
  by (simp add: tokenize_def tokenize_spec_def tokenize_loop_spec)

lemma tokens_spec_single_verbatim:
  "SQUOTE \<notin> set s \<Longrightarrow> tokens_spec single cur s = flush (cur @ s)"
  by (induction s arbitrary: cur) auto

lemma tokens_spec_double_plain:
  "DQUOTE \<notin> set s \<Longrightarrow> BACKSLASH \<notin> set s \<Longrightarrow> tokens_spec double cur s = flush (cur @ s)"
proof (induction s arbitrary: cur)
  case Nil then show ?case by simp
next
  case (Cons c s)
  then show ?case by (cases s) auto
qed

lemma tokens_spec_nonempty: "[] \<notin> set (tokens_spec m cur s)"
  by (induction m cur s rule: tokens_spec.induct) (auto simp: flush_def)

lemmas tokenize_eval = tokenize_def tokenize_loop.simps is_space_def

text \<open>
  C4. For every input, \<open>tokenize\<close> is the scan in three modes of \<open>tokens_spec\<close>: outside
  quotes white space ends a token and the two quotes change the mode; between single
  quotes every character is copied up to the next single quote; between double quotes a
  backslash consumes the next character, giving a line feed for \<open>n\<close>, a tab for \<open>t\<close>
  and the character itself otherwise; at the end of the input the token read so far is
  emitted, whatever the mode. An unterminated single quote takes the rest of the input
  unchanged, and so does an unterminated double quote before characters that are neither
  a double quote nor a backslash. The two examples of the specification hold.
\<close>

theorem tokenize_three_modes:
  "tokenize input = tokenize_spec input
   \<and> tokenize (SQUOTE # filter (\<lambda>c. c \<noteq> SQUOTE) s) = flush (filter (\<lambda>c. c \<noteq> SQUOTE) s)
   \<and> tokenize (DQUOTE # filter (\<lambda>c. c \<noteq> DQUOTE \<and> c \<noteq> BACKSLASH) s)
       = flush (filter (\<lambda>c. c \<noteq> DQUOTE \<and> c \<noteq> BACKSLASH) s)
   \<and> tokenize (str ''x '' @ [DQUOTE, BACKSLASH] @ str ''n'' @ [BACKSLASH] @ str ''t'' @ [BACKSLASH, DQUOTE,
         BACKSLASH, BACKSLASH, BACKSLASH] @ str ''q'' @ [DQUOTE])
       = [str ''x'', [LF, TAB, DQUOTE, BACKSLASH] @ str ''q'']
   \<and> tokenize (str ''a \"b c\" d'') = [str ''a'', str ''b c'', str ''d'']
   \<and> tokenize (str ''\"abc'') = [str ''abc'']"
proof -
  have single: "tokenize (SQUOTE # filter (\<lambda>c. c \<noteq> SQUOTE) s) = flush (filter (\<lambda>c. c \<noteq> SQUOTE) s)"
    by (simp add: tokenize_refines tokenize_spec_def tokens_spec_single_verbatim)
  have double: "tokenize (DQUOTE # filter (\<lambda>c. c \<noteq> DQUOTE \<and> c \<noteq> BACKSLASH) s)
       = flush (filter (\<lambda>c. c \<noteq> DQUOTE \<and> c \<noteq> BACKSLASH) s)"
    by (simp add: tokenize_refines tokenize_spec_def tokens_spec_double_plain)
  have esc: "tokenize (str ''x '' @ [DQUOTE, BACKSLASH] @ str ''n'' @ [BACKSLASH] @ str ''t'' @ [BACKSLASH, DQUOTE,
         BACKSLASH, BACKSLASH, BACKSLASH] @ str ''q'' @ [DQUOTE])
       = [str ''x'', [LF, TAB, DQUOTE, BACKSLASH] @ str ''q'']"
    by (simp add: tokenize_eval)
  have ex1: "tokenize (str ''a \"b c\" d'') = [str ''a'', str ''b c'', str ''d'']"
    by (simp add: tokenize_eval)
  have ex2: "tokenize (str ''\"abc'') = [str ''abc'']"
    by (simp add: tokenize_eval)
  show ?thesis
    using tokenize_refines single double esc ex1 ex2 by blast
qed

text \<open>
  C9. No token that \<open>tokenize\<close> returns is the empty string. A quoted empty string gives
  no token: \<open>""\<close> and \<open>''\<close> alone give no token at all, and in \<open>echo "" > f\<close> the tokens
  are \<open>echo\<close>, \<open>>\<close> and \<open>f\<close>.
\<close>

theorem tokenize_no_empty_token:
  "[] \<notin> set (tokenize input)
   \<and> tokenize [DQUOTE, DQUOTE] = []
   \<and> tokenize [SQUOTE, SQUOTE] = []
   \<and> tokenize (str ''echo \"\" > f'') = [str ''echo'', str ''>'', str ''f'']"
proof -
  have "[] \<notin> set (tokenize input)"
    by (simp add: tokenize_refines tokenize_spec_def tokens_spec_nonempty)
  moreover have "tokenize [DQUOTE, DQUOTE] = []" "tokenize [SQUOTE, SQUOTE] = []"
    by (simp_all add: tokenize_eval)
  moreover have "tokenize (str ''echo \"\" > f'') = [str ''echo'', str ''>'', str ''f'']"
    by (simp add: tokenize_eval)
  ultimately show ?thesis by blast
qed

section \<open>Paths\<close>

lemma rev_normalize_step:
  "rev (normalize_step s stack) =
     (if s = str ''.'' then rev stack else if s = str ''..'' then tl (rev stack) else s # rev stack)"
  using butlast_rev [of "rev stack"] by (simp add: normalize_step_def rev_swap)

lemma fold_normalize_segments:
  "fold normalize_step (filter (\<lambda>x. length x > 0) ss) stack = normalize_segments (rev stack) ss"
proof (induction ss arbitrary: stack)
  case Nil then show ?case by simp
next
  case (Cons s ss)
  show ?case
  proof (cases "s = []")
    case True
    then show ?thesis using Cons [of stack] by simp
  next
    case False
    then have "fold normalize_step (filter (\<lambda>x. length x > 0) (s # ss)) stack
        = fold normalize_step (filter (\<lambda>x. length x > 0) ss) (normalize_step s stack)"
      by simp
    also have "\<dots> = normalize_segments (rev (normalize_step s stack)) ss"
      by (rule Cons)
    also have "\<dots> = normalize_segments (rev stack) (s # ss)"
      using False by (simp add: rev_normalize_step)
    finally show ?thesis .
  qed
qed

lemma normalizePath_refines: "normalizePath path = normalizePath_spec path"
  by (simp add: normalizePath_def normalizePath_spec_def fold_normalize_segments [of _ "[]", simplified])

lemma split_join:
  "stack \<noteq> [] \<Longrightarrow> list_all seg_ok stack \<Longrightarrow> split_from SLASH [] (join [SLASH] stack) = stack"
  by (rule split_from_join) (simp_all add: seg_ok_def list_all_iff)

lemma normalize_segments_ok:
  "list_all seg_ok stk \<Longrightarrow> list_all (\<lambda>s. SLASH \<notin> set s) ss \<Longrightarrow> list_all seg_ok (normalize_segments stk ss)"
proof (induction ss arbitrary: stk)
  case Nil then show ?case by simp
next
  case (Cons s ss)
  then show ?case by (cases stk) (auto simp: seg_ok_def)
qed

lemma normalize_segments_id:
  "list_all seg_ok ss \<Longrightarrow> normalize_segments stk ss = rev stk @ ss"
  by (induction ss arbitrary: stk) (auto simp: seg_ok_def)

lemma split_slash_free: "list_all (\<lambda>s. SLASH \<notin> set s) (split SLASH path)"
  unfolding split_def by (rule split_from_pieces) simp

lemma is_normalized_fixed: "is_normalized path \<Longrightarrow> normalizePath path = path"
proof -
  assume n: "is_normalized path"
  show ?thesis
  proof (cases "path = [SLASH]")
    case True
    then show ?thesis by (simp add: normalizePath_def split_def)
  next
    case False
    with n obtain rest where p: "path = SLASH # rest" and ok: "list_all seg_ok (split SLASH rest)"
      by (cases path) (auto simp: is_normalized_def)
    have "normalize_segments [] (split SLASH path) = split SLASH rest"
      using ok by (simp add: p split_def normalize_segments_id)
    then show ?thesis
      by (simp add: normalizePath_refines normalizePath_spec_def) (simp add: p split_def join_split_from)
  qed
qed

lemma normalizePath_is_normalized: "is_normalized (normalizePath path)"
proof -
  define st where "st = normalize_segments [] (split SLASH path)"
  have ok: "list_all seg_ok st"
    unfolding st_def by (rule normalize_segments_ok) (simp_all add: split_slash_free)
  have np: "normalizePath path = SLASH # join [SLASH] st"
    by (simp add: normalizePath_refines normalizePath_spec_def st_def)
  show ?thesis
  proof (cases "st = []")
    case True
    then show ?thesis by (simp add: np is_normalized_def)
  next
    case False
    then show ?thesis using ok split_join [of st] by (simp add: np is_normalized_def split_def)
  qed
qed

lemmas resolve_eval = resolve_def resolvePath_def normalizePath_def split_def normalize_step_def
  strip_trailing_slashes_def

subsection \<open>What stripping the trailing slashes returns\<close>

lemma takeWhile_replicate:
  "takeWhile (\<lambda>c. c = a) xs = replicate (length (takeWhile (\<lambda>c. c = a) xs)) a"
  by (induction xs) auto

lemma strip_trailing_slashes_split:
  "s = strip_trailing_slashes s @ replicate (length s - length (strip_trailing_slashes s)) SLASH"
proof -
  define t where "t = takeWhile (\<lambda>c. c = SLASH) (rev s)"
  define d where "d = dropWhile (\<lambda>c. c = SLASH) (rev s)"
  have "rev s = t @ d"
    by (simp add: t_def d_def)
  then have s: "s = rev d @ rev t"
    by (metis rev_append rev_rev_ident)
  have t: "t = replicate (length t) SLASH"
    unfolding t_def by (rule takeWhile_replicate)
  have rt: "rev t = replicate (length t) SLASH"
    by (subst t) simp
  have st: "strip_trailing_slashes s = rev d"
    by (simp add: strip_trailing_slashes_def d_def)
  have len: "length s - length (rev d) = length t"
    by (subst s) simp
  have "s = rev d @ replicate (length s - length (rev d)) SLASH"
    unfolding len using s rt by simp
  then show ?thesis by (simp only: st)
qed

lemma strip_trailing_slashes_last:
  "strip_trailing_slashes s = [] \<or> last (strip_trailing_slashes s) \<noteq> SLASH"
proof (cases "dropWhile (\<lambda>c. c = SLASH) (rev s) = []")
  case True
  then show ?thesis by (simp add: strip_trailing_slashes_def)
next
  case False
  then have "hd (dropWhile (\<lambda>c. c = SLASH) (rev s)) \<noteq> SLASH"
    using hd_dropWhile [of "\<lambda>c. c = SLASH" "rev s"] by simp
  then show ?thesis
    using False by (simp add: strip_trailing_slashes_def last_rev)
qed

lemma strip_trailing_slashes_id:
  "s = [] \<or> last s \<noteq> SLASH \<Longrightarrow> strip_trailing_slashes s = s"
proof -
  assume "s = [] \<or> last s \<noteq> SLASH"
  then have "rev s = [] \<or> \<not> hd (rev s) = SLASH"
    by (auto simp: hd_rev)
  then have "dropWhile (\<lambda>c. c = SLASH) (rev s) = rev s"
    by (simp add: dropWhile_eq_self_iff)
  then show ?thesis by (simp add: strip_trailing_slashes_def)
qed

lemma split_from_ends_empty: "last (split_from sep cur (r @ [sep])) = []"
  by (induction r arbitrary: cur) auto

lemma is_normalized_no_trailing_slash:
  assumes "is_normalized wd" "wd \<noteq> [SLASH]"
  shows "wd \<noteq> [] \<and> last wd \<noteq> SLASH"
proof -
  obtain rest where wd: "wd = SLASH # rest" and ok: "list_all seg_ok (split_from SLASH [] rest)"
    using assms by (cases wd) (auto simp: is_normalized_def split_def)
  have ne: "rest \<noteq> []"
    using ok by (auto simp: seg_ok_def)
  have "last rest \<noteq> SLASH"
  proof
    assume "last rest = SLASH"
    then have "rest = butlast rest @ [SLASH]"
      using ne by (metis append_butlast_last_id)
    then have "last (split_from SLASH [] rest) = []"
      using split_from_ends_empty [of SLASH "[]" "butlast rest"] by simp
    moreover have "last (split_from SLASH [] rest) \<in> set (split_from SLASH [] rest)"
      by (rule last_in_set) simp
    ultimately show False
      using ok by (auto simp: list_all_iff seg_ok_def)
  qed
  then show ?thesis using ne by (simp add: wd)
qed

lemma resolvePath_relative:
  assumes "is_normalized wd" "p \<noteq> []" "p \<noteq> str ''.''" "take 1 p \<noteq> str ''/''"
  shows "resolvePath wd p = (if wd = [SLASH] then SLASH # p else wd @ SLASH # p)"
proof (cases "wd = [SLASH]")
  case True
  then show ?thesis using assms(2-4) by (simp add: resolvePath_def strip_trailing_slashes_def)
next
  case False
  then have "strip_trailing_slashes wd = wd"
    using is_normalized_no_trailing_slash [OF assms(1)] by (intro strip_trailing_slashes_id) simp
  then show ?thesis using False assms(2-4) by (simp add: resolvePath_def)
qed

text \<open>
  C5. For an absolute normalized working directory \<open>wd\<close> and any argument \<open>p\<close>:
  \<open>resolvePath\<close> returns \<open>wd\<close> for the empty string and for \<open>.\<close> (and normalisation leaves it as it is),
  returns \<open>p\<close> itself when \<open>p\<close> begins with a slash, and otherwise \<open>wd\<close> without its
  trailing slashes, a slash and \<open>p\<close>: that is a slash and \<open>p\<close> when \<open>wd\<close> is the root,
  and \<open>wd\<close>, a slash and \<open>p\<close> for any other \<open>wd\<close>. Stripping the trailing slashes of any
  string leaves the part before its last run of slashes: the string is that part
  followed by slashes only, and the part is empty or does not end in a slash.
  \<open>normalizePath\<close> is the normalisation of the
  specification (\<open>normalizePath_spec\<close>: split at the slashes, drop the empty segments
  and \<open>.\<close>, pop one kept segment for each \<open>..\<close> and nothing at the root, join behind a
  leading slash). The resolved path is always absolute and normalized, so it never
  leaves the root. The three examples of the specification hold, and so do two with a
  working directory that ends in slashes.
\<close>

theorem resolve_normalize_spec:
  assumes "is_normalized wd"
  shows "(p = [] \<or> p = str ''.'' \<longrightarrow> resolvePath wd p = wd \<and> resolve wd p = wd)
   \<and> (take 1 p = str ''/'' \<longrightarrow> resolvePath wd p = p)
   \<and> (p \<noteq> [] \<and> p \<noteq> str ''.'' \<and> take 1 p \<noteq> str ''/''
        \<longrightarrow> resolvePath wd p = strip_trailing_slashes wd @ str ''/'' @ p
          \<and> resolvePath wd p = (if wd = [SLASH] then SLASH # p else wd @ SLASH # p))
   \<and> s = strip_trailing_slashes s @ replicate (length s - length (strip_trailing_slashes s)) SLASH
   \<and> (strip_trailing_slashes s = [] \<or> last (strip_trailing_slashes s) \<noteq> SLASH)
   \<and> resolvePath (str ''/'') (str ''x'') = str ''/x''
   \<and> resolvePath (str ''/a//'') (str ''x'') = str ''/a/x''
   \<and> normalizePath q = normalizePath_spec q
   \<and> is_normalized (resolve wd p)
   \<and> resolve (str ''/home/u'') (str ''..'') = str ''/home''
   \<and> resolve (str ''/'') (str ''../../x'') = str ''/x''
   \<and> resolve (str ''/a'') (str ''/b'') = str ''/b''"
proof -
  have a: "p = [] \<or> p = str ''.'' \<longrightarrow> resolvePath wd p = wd \<and> resolve wd p = wd"
    using assms by (auto simp: resolve_def resolvePath_def is_normalized_fixed)
  have b: "take 1 p = str ''/'' \<longrightarrow> resolvePath wd p = p"
    by (auto simp: resolvePath_def)
  have c: "p \<noteq> [] \<and> p \<noteq> str ''.'' \<and> take 1 p \<noteq> str ''/''
        \<longrightarrow> resolvePath wd p = strip_trailing_slashes wd @ str ''/'' @ p
          \<and> resolvePath wd p = (if wd = [SLASH] then SLASH # p else wd @ SLASH # p)"
  proof (intro impI conjI)
    assume r: "p \<noteq> [] \<and> p \<noteq> str ''.'' \<and> take 1 p \<noteq> str ''/''"
    then show "resolvePath wd p = strip_trailing_slashes wd @ str ''/'' @ p"
      by (simp add: resolvePath_def)
    show "resolvePath wd p = (if wd = [SLASH] then SLASH # p else wd @ SLASH # p)"
      using r by (intro resolvePath_relative [OF assms]) simp_all
  qed
  have d: "is_normalized (resolve wd p)"
    by (simp add: resolve_def normalizePath_is_normalized)
  have e: "resolve (str ''/home/u'') (str ''..'') = str ''/home''"
    "resolve (str ''/'') (str ''../../x'') = str ''/x''"
    "resolve (str ''/a'') (str ''/b'') = str ''/b''"
    by (simp_all add: resolve_eval)
  have f: "resolvePath (str ''/'') (str ''x'') = str ''/x''"
    "resolvePath (str ''/a//'') (str ''x'') = str ''/a/x''"
    by (simp_all add: resolvePath_def strip_trailing_slashes_def)
  show ?thesis
    using a b c d e f normalizePath_refines strip_trailing_slashes_split [of s]
      strip_trailing_slashes_last [of s]
    by blast
qed

theorem resolve_normalize_spec_witness:
  "is_normalized (str ''/home/u'')
   \<and> resolve (str ''/home/u'') [] = str ''/home/u''
   \<and> resolvePath (str ''/home/u'') (str ''/etc'') = str ''/etc''
   \<and> resolvePath (str ''/home/u'') (str ''docs'') = str ''/home/u/docs''
   \<and> is_normalized (resolve (str ''/home/u'') (str ''../../../x''))
   \<and> is_normalized (str ''/'')
   \<and> resolvePath (str ''/'') (str ''docs'') = str ''/docs''"
proof -
  have h: "is_normalized (str ''/home/u'')"
    by (simp add: is_normalized_def split_def seg_ok_def)
  have root: "is_normalized (str ''/'')"
    by (simp add: is_normalized_def)
  show ?thesis
    using h root resolve_normalize_spec [OF h, where p = "[]" and s = "[]" and q = "[]"]
      resolve_normalize_spec [OF h, where p = "str ''/etc''" and s = "[]" and q = "[]"]
      resolve_normalize_spec [OF h, where p = "str ''docs''" and s = "[]" and q = "[]"]
      resolve_normalize_spec [OF h, where p = "str ''../../../x''" and s = "[]" and q = "[]"]
      resolve_normalize_spec [OF root, where p = "str ''docs''" and s = "[]" and q = "[]"]
    by (simp add: strip_trailing_slashes_def)
qed

section \<open>The message handler of the worker\<close>

lemma switch_type_mutating:
  "is_mutating (req_type req) \<Longrightarrow> switch_type E req fs = (Inr result, fs', np) \<Longrightarrow> np \<and> result = Undefined"
  by (auto simp: is_mutating_def switch_type_def mutated_def split: option.splits)

lemma switch_type_read_only:
  "is_read_only (req_type req) \<Longrightarrow> switch_type E req fs = (r, fs', np) \<Longrightarrow> \<not> np \<and> fs' = fs"
  by (auto simp: is_read_only_def switch_type_def answered_def split: sum.splits)

lemma truthy_mutating: "is_mutating ty \<Longrightarrow> truthy ty"
  by (auto simp: is_mutating_def)

lemma truthy_read_only: "is_read_only ty \<Longrightarrow> truthy ty"
  by (auto simp: is_read_only_def)

text \<open>
  The five ways through the handler for a message that passes the first test: \<open>api\<close>
  is not set; the \<open>switch\<close> throws; it returns and nothing is to persist; \<open>persist\<close>
  throws before the store is called; the store is called, and its outcome decides the
  response.
\<close>

lemma onmessage_outcomes:
  assumes "truthy (req_id req)" "truthy (req_type req)"
  shows "(\<not> api_set w
            \<and> onmessage E (Some req) w = post (respond_error (req_id req) (str ''Kernel not initialized'')) w)
       \<or> (\<exists>message fs' np. api_set w \<and> switch_type E req (tree w) = (Inl message, fs', np)
            \<and> onmessage E (Some req) w = post (respond_error (req_id req) message) (w\<lparr>tree := fs'\<rparr>))
       \<or> (\<exists>result fs'. api_set w \<and> switch_type E req (tree w) = (Inr result, fs', False)
            \<and> onmessage E (Some req) w = post (respond_ok (req_id req) result) (w\<lparr>tree := fs'\<rparr>))
       \<or> (\<exists>result fs' message. api_set w \<and> switch_type E req (tree w) = (Inr result, fs', True)
            \<and> api_fs_dump_state E fs' = Inl message
            \<and> onmessage E (Some req) w = post (respond_error (req_id req) message) (w\<lparr>tree := fs'\<rparr>))
       \<or> (\<exists>result fs' bytes r s'. api_set w \<and> switch_type E req (tree w) = (Inr result, fs', True)
            \<and> api_fs_dump_state E fs' = Inr bytes
            \<and> idb_set_bytes E (store w) (FS_KEY E) bytes = (r, s')
            \<and> onmessage E (Some req) w
                = post (settled (req_id req) result r)
                    (w\<lparr>tree := fs', store := s', trace := trace w @ [IdbSetBytes (FS_KEY E) bytes]\<rparr>))"
proof (cases "api_set w")
  case False
  then show ?thesis using assms by (simp add: onmessage_def)
next
  case True
  obtain out fs' np where sw: "switch_type E req (tree w) = (out, fs', np)"
    by (cases "switch_type E req (tree w)") auto
  show ?thesis
  proof (cases out)
    case (Inl message)
    then show ?thesis using True sw assms by (simp add: onmessage_def)
  next
    case (Inr result)
    show ?thesis
    proof (cases np)
      case False
      then show ?thesis using True sw Inr assms by (simp add: onmessage_def)
    next
      case np: True
      show ?thesis
      proof (cases "api_fs_dump_state E fs'")
        case (Inl message)
        then show ?thesis
          using True sw Inr np assms by (simp add: onmessage_def persist_def)
      next
        case bytes: (Inr bytes)
        obtain r s' where st: "idb_set_bytes E (store w) (FS_KEY E) bytes = (r, s')"
          by (cases "idb_set_bytes E (store w) (FS_KEY E) bytes") auto
        show ?thesis
          using True sw Inr np bytes st assms
          by (cases r) (simp_all add: onmessage_def persist_def settled_def)
      qed
    qed
  qed
qed

lemma trace_onmessage: "trace (onmessage E data w) = trace w @ new_events E data w"
proof (cases "\<exists>req. data = Some req \<and> truthy (req_id req) \<and> truthy (req_type req)")
  case True
  then obtain req where d: "data = Some req" and t: "truthy (req_id req)" "truthy (req_type req)"
    by blast
  show ?thesis
    using onmessage_outcomes [OF t, of w E]
    by (elim disjE exE conjE) (auto simp: d new_events_def post_def)
next
  case False
  then have "onmessage E data w = w"
    by (cases data) (auto simp: onmessage_def)
  then show ?thesis by (simp add: new_events_def)
qed

lemmas worker_eval = onmessage_def new_events_def switch_type_def mutated_def answered_def persist_def
  post_def respond_ok_def respond_error_def table_worker_env_def table_worker_def table_request_def
  table_stat_def table_readdir_def table_read_file_def

text \<open>
  C2. For a request with an id, whose events follow those already in the trace: when the request is one of the six mutating types and
  a response with \<open>ok = true\<close> is posted for it, the \<open>switch\<close> has changed the tree,
  \<open>persist\<close> has serialized the changed tree and called the store with the fixed key
  and these bytes, the store has settled without an error, and only then was the
  response posted (the message adds exactly the write and then the response to the
  trace); whenever the mutation returns and the tree is serialized, the store is called
  once with these bytes. For the three reading types and \<open>hello\<close> the store is not
  called at all, and store and tree stay as they were.
\<close>

theorem persist_before_response:
  assumes "truthy (req_id req)"
  shows "trace (onmessage E (Some req) w) = trace w @ new_events E (Some req) w
       \<and> (is_mutating (req_type req) \<longrightarrow>
            (\<forall>r. PostMessage r \<in> set (new_events E (Some req) w) \<and> resp_ok r \<longrightarrow>
               (\<exists>bytes fs'. switch_type E req (tree w) = (Inr Undefined, fs', True)
                  \<and> tree (onmessage E (Some req) w) = fs'
                  \<and> api_fs_dump_state E fs' = Inr bytes
                  \<and> idb_set_bytes E (store w) (FS_KEY E) bytes = (None, store (onmessage E (Some req) w))
                  \<and> new_events E (Some req) w = [IdbSetBytes (FS_KEY E) bytes, PostMessage r]))
          \<and> (\<forall>bytes fs' result np. api_set w \<and> switch_type E req (tree w) = (Inr result, fs', np)
                  \<and> api_fs_dump_state E fs' = Inr bytes
                \<longrightarrow> store_writes (new_events E (Some req) w) = [(FS_KEY E, bytes)]))
       \<and> (is_read_only (req_type req) \<longrightarrow>
            store_writes (new_events E (Some req) w) = []
          \<and> store (onmessage E (Some req) w) = store w
          \<and> tree (onmessage E (Some req) w) = tree w)"
proof (intro conjI impI)
  show "trace (onmessage E (Some req) w) = trace w @ new_events E (Some req) w"
    by (rule trace_onmessage)
next
  assume m: "is_mutating (req_type req)"
  note o = onmessage_outcomes [OF assms truthy_mutating [OF m], of w E]
  show "\<forall>r. PostMessage r \<in> set (new_events E (Some req) w) \<and> resp_ok r \<longrightarrow>
               (\<exists>bytes fs'. switch_type E req (tree w) = (Inr Undefined, fs', True)
                  \<and> tree (onmessage E (Some req) w) = fs'
                  \<and> api_fs_dump_state E fs' = Inr bytes
                  \<and> idb_set_bytes E (store w) (FS_KEY E) bytes = (None, store (onmessage E (Some req) w))
                  \<and> new_events E (Some req) w = [IdbSetBytes (FS_KEY E) bytes, PostMessage r])"
    using o
    by (elim disjE exE conjE)
       (auto dest: switch_type_mutating [OF m]
          simp: new_events_def post_def respond_error_def respond_ok_def settled_def split: option.splits)
  show "\<forall>bytes fs' result np. api_set w \<and> switch_type E req (tree w) = (Inr result, fs', np)
                  \<and> api_fs_dump_state E fs' = Inr bytes
                \<longrightarrow> store_writes (new_events E (Some req) w) = [(FS_KEY E, bytes)]"
    using o
    by (elim disjE exE conjE) (auto dest: switch_type_mutating [OF m] simp: new_events_def post_def)
next
  assume r: "is_read_only (req_type req)"
  note o = onmessage_outcomes [OF assms truthy_read_only [OF r], of w E]
  show "store_writes (new_events E (Some req) w) = []"
    using o
    by (elim disjE exE conjE) (auto dest: switch_type_read_only [OF r] simp: new_events_def post_def)
  show "store (onmessage E (Some req) w) = store w"
    using o
    by (elim disjE exE conjE) (auto dest: switch_type_read_only [OF r] simp: post_def)
  show "tree (onmessage E (Some req) w) = tree w"
    using o
    by (elim disjE exE conjE) (auto dest: switch_type_read_only [OF r] simp: post_def)
qed

theorem persist_before_response_witness:
  "truthy (JStr (str ''7''))
   \<and> is_mutating (JStr (str ''fs_mkdir''))
   \<and> new_events table_worker_env (Some (table_request (JStr (str ''7'')) (JStr (str ''fs_mkdir'')) (str ''/a'')))
        (table_worker [])
      = [IdbSetBytes (str ''fs'') (str ''/a''), PostMessage (respond_ok (JStr (str ''7'')) Undefined)]
   \<and> store_writes (new_events table_worker_env
        (Some (table_request (JStr (str ''7'')) (JStr (str ''fs_mkdir'')) (str ''/a''))) (table_worker []))
      = [(str ''fs'', str ''/a'')]
   \<and> is_read_only (JStr (str ''fs_stat''))
   \<and> store_writes (new_events table_worker_env
        (Some (table_request (JStr (str ''7'')) (JStr (str ''fs_stat'')) (str ''/a''))) (table_worker [])) = []"
proof -
  have t: "truthy (req_id (table_request (JStr (str ''7'')) (JStr (str ''fs_mkdir'')) (str ''/a'')))"
          "truthy (req_id (table_request (JStr (str ''7'')) (JStr (str ''fs_stat'')) (str ''/a'')))"
    by (simp_all add: table_request_def)
  have e: "new_events table_worker_env (Some (table_request (JStr (str ''7'')) (JStr (str ''fs_mkdir'')) (str ''/a'')))
        (table_worker [])
      = [IdbSetBytes (str ''fs'') (str ''/a''), PostMessage (respond_ok (JStr (str ''7'')) Undefined)]"
    by (simp add: worker_eval)
  show ?thesis
    using persist_before_response [OF t(1), of table_worker_env "table_worker []"]
      persist_before_response [OF t(2), of table_worker_env "table_worker []"] e
    by (simp add: is_mutating_def is_read_only_def table_request_def)
qed

text \<open>
  C3. For a request whose \<open>id\<close> and \<open>type\<close> pass the first test (so for every request
  with an id and one of the ten types), the handler posts exactly one response, after
  whatever the trace held before; its \<open>id\<close> is the \<open>id\<close> of the request; with
  \<open>ok = false\<close> it has the field \<open>error\<close> and no field \<open>result\<close>, with \<open>ok = true\<close> it has
  the field \<open>result\<close> and no field \<open>error\<close>. (The field \<open>result\<close> of a mutating request
  holds \<open>undefined\<close>.)
\<close>

theorem onmessage_one_response:
  assumes "truthy (req_id req)" "truthy (req_type req)"
  shows "\<exists>r. responses (new_events E (Some req) w) = [r]
           \<and> trace (onmessage E (Some req) w) = trace w @ new_events E (Some req) w
           \<and> resp_id r = req_id req
           \<and> (\<not> resp_ok r \<longrightarrow> resp_error r \<noteq> None \<and> resp_result r = None)
           \<and> (resp_ok r \<longrightarrow> resp_result r \<noteq> None \<and> resp_error r = None)
           \<and> (resp_ok r \<and> is_mutating (req_type req) \<longrightarrow> resp_result r = Some Undefined)"
  using onmessage_outcomes [OF assms, of w E]
  by (elim disjE exE conjE)
     (auto dest: switch_type_mutating
        simp: new_events_def post_def respond_error_def respond_ok_def settled_def split: option.splits)

theorem onmessage_one_response_witness:
  "truthy (JStr (str ''7'')) \<and> truthy (JStr (str ''fs_stat''))
   \<and> (\<exists>r. responses (new_events table_worker_env
              (Some (table_request (JStr (str ''7'')) (JStr (str ''fs_stat'')) (str ''/a''))) (table_worker [])) = [r]
          \<and> resp_id r = JStr (str ''7'') \<and> \<not> resp_ok r \<and> resp_error r \<noteq> None \<and> resp_result r = None)"
proof -
  have t: "truthy (req_id (table_request (JStr (str ''7'')) (JStr (str ''fs_stat'')) (str ''/a'')))"
          "truthy (req_type (table_request (JStr (str ''7'')) (JStr (str ''fs_stat'')) (str ''/a'')))"
    by (simp_all add: table_request_def)
  have e: "responses (new_events table_worker_env
              (Some (table_request (JStr (str ''7'')) (JStr (str ''fs_stat'')) (str ''/a''))) (table_worker []))
        = [respond_error (JStr (str ''7'')) (str ''not found: /a'')]"
    by (simp add: worker_eval)
  show ?thesis
    using onmessage_one_response [OF t, of table_worker_env "table_worker []"] e
    by (auto simp: respond_error_def)
qed

text \<open>
  C10. A message without data, or whose \<open>id\<close> or \<open>type\<close> is missing or falsy, leaves the
  worker as it was: the handler returns before it posts anything, so no response with
  \<open>ok = true\<close> or \<open>ok = false\<close> is ever posted for it and the trace has no new event.
\<close>

theorem onmessage_invalid_request_silent:
  assumes "data = None \<or> (\<exists>req. data = Some req \<and> (\<not> truthy (req_id req) \<or> \<not> truthy (req_type req)))"
  shows "onmessage E data w = w \<and> new_events E data w = []"
  using assms by (auto simp: onmessage_def new_events_def)

theorem onmessage_invalid_request_silent_witness:
  "\<not> truthy (JStr [])
   \<and> onmessage table_worker_env (Some (table_request (JStr []) (JStr (str ''fs_mkdir'')) (str ''/a'')))
        (table_worker []) = table_worker []
   \<and> \<not> truthy JUndefined
   \<and> new_events table_worker_env (Some (table_request (JStr (str ''7'')) JUndefined (str ''/a'')))
        (table_worker []) = []"
  using onmessage_invalid_request_silent
      [of "Some (table_request (JStr []) (JStr (str ''fs_mkdir'')) (str ''/a''))" table_worker_env "table_worker []"]
    onmessage_invalid_request_silent
      [of "Some (table_request (JStr (str ''7'')) JUndefined (str ''/a''))" table_worker_env "table_worker []"]
  by (simp add: table_request_def)

section \<open>The terminal\<close>

lemmas terminal_eval = table_env_def table_kernel_def table_terminal_def table_stat_def table_readdir_def
  table_read_file_def settle_def target_path_def arg_at_def arg0_def ok_def fail_def

text \<open>
  C6. \<open>cd\<close> stats the target \<open>cd_target\<close> (the first argument, or \<open>/\<close> without one,
  resolved and normalized). When the stat rejects, it fails: the result has an empty
  \<open>stdout\<close>, the \<open>stderr\<close> \<open>directory not found:\<close> with the target, and code 1. When the
  stat resolves to something that is not a directory, it fails likewise with the
  \<open>stderr\<close> \<open>not a directory:\<close> with the target and code 1. Otherwise it sets \<open>cwd\<close> to the
  target and returns code 0 with empty \<open>stdout\<close> and \<open>stderr\<close>. It always returns a result,
  with code 0 or 1; the code is 1 exactly when the stat rejects or gives no directory,
  and then the terminal, and so \<open>cwd\<close>, is unchanged.
\<close>

theorem cd_handler_spec:
  "(\<forall>e. kernel_fs_stat (kernel env) (kstate t) (cd_target t args) = Inl e \<longrightarrow>
        cd_handler env args t
          = (Inr \<lparr>stdout = [], stderr = str ''directory not found: '' @ cd_target t args, code = 1\<rparr>, t))
   \<and> (\<forall>st. kernel_fs_stat (kernel env) (kstate t) (cd_target t args) = Inr st \<and> \<not> is_dir st \<longrightarrow>
        cd_handler env args t
          = (Inr \<lparr>stdout = [], stderr = str ''not a directory: '' @ cd_target t args, code = 1\<rparr>, t))
   \<and> (\<forall>st. kernel_fs_stat (kernel env) (kstate t) (cd_target t args) = Inr st \<and> is_dir st \<longrightarrow>
        cd_handler env args t = (Inr \<lparr>stdout = [], stderr = [], code = 0\<rparr>, t\<lparr>cwd := cd_target t args\<rparr>))
   \<and> (\<exists>res. fst (cd_handler env args t) = Inr res
          \<and> (code res = 0 \<or> code res = 1)
          \<and> (code res = 1 \<longleftrightarrow> stat_is_dir (kernel env) (kstate t) (cd_target t args) = False)
          \<and> (code res \<noteq> 0 \<longrightarrow> snd (cd_handler env args t) = t \<and> cwd (snd (cd_handler env args t)) = cwd t)
          \<and> (code res \<noteq> 0 \<longrightarrow> stdout res = [] \<and> stderr res \<noteq> []))
   \<and> fail (str ''directory not found: '' @ cd_target t args)
        = \<lparr>stdout = [], stderr = str ''directory not found: '' @ cd_target t args, code = 1\<rparr>
   \<and> cd_target t [] = normalizePath (str ''/'')
   \<and> cd_target t (a # rest) = normalizePath (resolvePath (cwd t) a)"
proof -
  have tgt: "normalizePath (resolvePath (cwd t) (case arg0 args of None \<Rightarrow> str ''/'' | Some a \<Rightarrow> a))
      = cd_target t args"
    by (cases args) (simp_all add: cd_target_def resolve_def arg0_def)
  have slash: "resolvePath (cwd t) [SLASH] = [SLASH]"
    by (simp add: resolvePath_def)
  show ?thesis
    unfolding cd_handler_def Let_def tgt
    by (cases "kernel_fs_stat (kernel env) (kstate t) (cd_target t args)")
       (auto simp: ok_def fail_def cd_target_def resolve_def slash stat_is_dir_def)
qed

theorem cd_handler_spec_witness:
  "kernel_fs_stat (kernel table_env) [] (cd_target (table_terminal (str ''/home'') []) [str ''/nope''])
     = Inl (str ''not found: /nope'')
   \<and> cd_handler table_env [str ''/nope''] (table_terminal (str ''/home'') [])
     = (Inr \<lparr>stdout = [], stderr = str ''directory not found: /nope'', code = 1\<rparr>,
        table_terminal (str ''/home'') [])
   \<and> cd_handler table_env [str ''docs''] (table_terminal (str ''/home'') [(str ''/home/docs'', DirNode [])])
     = (Inr \<lparr>stdout = [], stderr = [], code = 0\<rparr>,
        table_terminal (str ''/home/docs'') [(str ''/home/docs'', DirNode [])])
   \<and> cd_handler table_env [str ''f''] (table_terminal (str ''/home'') [(str ''/home/f'', FileNode [])])
     = (Inr \<lparr>stdout = [], stderr = str ''not a directory: /home/f'', code = 1\<rparr>,
        table_terminal (str ''/home'') [(str ''/home/f'', FileNode [])])"
proof -
  have t1: "cd_target (table_terminal (str ''/home'') []) [str ''/nope''] = str ''/nope''"
    and t2: "cd_target (table_terminal (str ''/home'') [(str ''/home/docs'', DirNode [])]) [str ''docs'']
       = str ''/home/docs''"
    and t3: "cd_target (table_terminal (str ''/home'') [(str ''/home/f'', FileNode [])]) [str ''f'']
       = str ''/home/f''"
    by (simp_all add: cd_target_def table_terminal_def resolve_eval)
  show ?thesis
    using cd_handler_spec [of table_env "table_terminal (str ''/home'') []" "[str ''/nope'']"]
      cd_handler_spec [of table_env "table_terminal (str ''/home'') [(str ''/home/docs'', DirNode [])]" "[str ''docs'']"]
      cd_handler_spec [of table_env "table_terminal (str ''/home'') [(str ''/home/f'', FileNode [])]" "[str ''f'']"]
    unfolding t1 t2 t3
    by (simp add: table_env_def table_kernel_def table_terminal_def table_stat_def)
qed

subsection \<open>No handler touches the history\<close>

lemma settle_history: "history (snd (settle t r)) = history t"
  by (simp add: settle_def split: option.splits)

lemma always_history:
  assumes "\<And>env args t. history (snd (h env args t)) = history t"
  shows "always h fuel env args t = Some (r, t') \<Longrightarrow> history t' = history t"
  using assms [of env args t] by (auto simp: always_def)

lemma help_history: "history (snd (help_handler env args t)) = history t"
  by (simp add: help_handler_def)

lemma clear_history: "history (snd (clear_handler env args t)) = history t"
  by (simp add: clear_handler_def)

lemma reset_history: "history (snd (reset_handler env args t)) = history t"
  by (simp add: reset_handler_def)

lemma sudo_history: "history (snd (sudo_handler env args t)) = history t"
  by (simp add: sudo_handler_def Let_def split: list.splits option.splits)

lemma hello_history: "history (snd (hello_handler env args t)) = history t"
  by (simp add: hello_handler_def Let_def split: sum.splits)

lemma pwd_history: "history (snd (pwd_handler env args t)) = history t"
  by (simp add: pwd_handler_def)

lemma open_history: "history (snd (open_handler env args t)) = history t"
  by (simp add: open_handler_def Let_def split: sum.splits)

lemma edit_history: "history (snd (edit_handler env args t)) = history t"
  by (simp add: edit_handler_def Let_def split: sum.splits prod.splits option.splits)

lemma cd_history: "history (snd (cd_handler env args t)) = history t"
  by (simp add: cd_handler_def Let_def split: sum.splits)

lemma ls_history: "history (snd (ls_handler env args t)) = history t"
  by (simp add: ls_handler_def Let_def split: sum.splits)

lemma tree_history: "tree_handler fuel env args t = Some (r, t') \<Longrightarrow> history t' = history t"
  by (auto simp: tree_handler_def Let_def split: option.splits)

lemma mkdir_history: "history (snd (mkdir_handler env args t)) = history t"
  by (simp add: mkdir_handler_def settle_history)

lemma cat_history: "history (snd (cat_handler env args t)) = history t"
  by (simp add: cat_handler_def split: sum.splits)

lemma echo_history: "history (snd (echo_handler env args t)) = history t"
  by (simp add: echo_handler_def Let_def settle_history)

lemma rm_history: "history (snd (rm_handler env args t)) = history t"
  by (simp add: rm_handler_def settle_history)

lemma rmdir_history: "history (snd (rmdir_handler env args t)) = history t"
  by (simp add: rmdir_handler_def settle_history)

lemma mv_history: "history (snd (mv_handler env args t)) = history t"
  by (simp add: mv_handler_def settle_history)

lemma cp_history: "history (snd (cp_handler env args t)) = history t"
  by (simp add: cp_handler_def settle_history)

lemma stat_history: "history (snd (stat_handler env args t)) = history t"
  by (simp add: stat_handler_def Let_def split: sum.splits)

lemmas handler_history = help_history clear_history reset_history sudo_history hello_history pwd_history
  open_history edit_history cd_history ls_history mkdir_history cat_history echo_history rm_history
  rmdir_history mv_history cp_history stat_history

lemmas always_handler_history = handler_history [THEN always_history]

lemma registered_history:
  assumes "map_of registerBuiltins cmd = Some handler" "handler fuel env args t = Some (r, t')"
  shows "history t' = history t"
proof -
  have "(cmd, handler) \<in> set registerBuiltins"
    using assms(1) by (rule map_of_SomeD)
  then show ?thesis
    using assms(2) unfolding registerBuiltins_def
    by (auto dest: always_handler_history tree_history)
qed

lemma exec_history:
  fixes env :: "('k, 'b) env"
  assumes ne: "trim line \<noteq> []"
  shows "history (snd (exec env fuel line t)) = history t @ [trim line]"
proof -
  define t1 where "t1 = t\<lparr>history := history t @ [trim line]\<rparr>"
  have h1: "history t1 = history t @ [trim line]" by (simp add: t1_def)
  show ?thesis
  proof (cases "tokenize (trim line)")
    case Nil
    then show ?thesis using ne by (simp add: exec_def Let_def)
  next
    case (Cons cmd args)
    show ?thesis
    proof (cases "map_of (registerBuiltins :: (jsstring \<times> ('k, 'b) fueled_handler) list) cmd")
      case None
      then show ?thesis using ne Cons by (simp add: exec_def Let_def)
    next
      case (Some handler)
      show ?thesis
      proof (cases "handler fuel env args t1")
        case None
        then show ?thesis using ne Cons Some by (simp add: exec_def Let_def t1_def)
      next
        case ret: (Some rt)
        obtain r t2 where rt: "rt = (r, t2)" by (cases rt)
        have "history t2 = history t1"
          using registered_history [OF Some] ret rt by blast
        then show ?thesis
          using ne Cons Some ret rt h1 by (cases r) (simp_all add: exec_def Let_def t1_def [symmetric])
      qed
    qed
  qed
qed

lemma exec_empty: "trim line = [] \<Longrightarrow> exec env fuel line t = (Some (ok []), t)"
  by (simp add: exec_def)

lemma exec_all_history:
  "history (exec_all env fuel lines t) = history t @ filter (\<lambda>l. l \<noteq> []) (map trim lines)"
proof (induction lines arbitrary: t)
  case Nil then show ?case by simp
next
  case (Cons line rest)
  show ?case
    using Cons [of "snd (exec env fuel line t)"] exec_history [of line env fuel t] exec_empty [of line env fuel t]
    by (cases "trim line = []") simp_all
qed

text \<open>
  C8. When the trimmed line is empty, \<open>exec\<close> returns code 0 with empty output and leaves
  the terminal, so the history, as it was. Otherwise the history after \<open>exec\<close> is the
  history before with exactly the trimmed line added at its end, whatever the rest of
  \<open>exec\<close> does: no token, an unknown command, a handler that fails, throws or has not
  returned. So over any sequence of lines the history grows by the non-empty trimmed
  lines, in their order, repeated lines included.
\<close>

theorem exec_appends_history:
  "(trim line = [] \<longrightarrow> exec env fuel line t = (Some \<lparr>stdout = [], stderr = [], code = 0\<rparr>, t))
   \<and> (trim line \<noteq> [] \<longrightarrow> history (snd (exec env fuel line t)) = history t @ [trim line])
   \<and> history (exec_all env fuel lines t) = history t @ filter (\<lambda>l. l \<noteq> []) (map trim lines)"
  using exec_history [of line env fuel t] exec_empty [of line env fuel t] exec_all_history [of env fuel lines t]
  by (simp add: ok_def)

theorem exec_appends_history_witness:
  "trim (str ''   '') = []
   \<and> exec table_env 0 (str ''   '') (table_terminal (str ''/'') []) = (Some (ok []), table_terminal (str ''/'') [])
   \<and> trim (str '' nope x '') = str ''nope x''
   \<and> history (snd (exec table_env 0 (str '' nope x '') (table_terminal (str ''/'') []))) = [str ''nope x'']
   \<and> history (exec_all table_env 0 [str ''cd /nope'', str '' '', str ''cd /nope''] (table_terminal (str ''/'') []))
       = [str ''cd /nope'', str ''cd /nope'']"
  using exec_appends_history [of "str ''   ''" table_env 0 "table_terminal (str ''/'') []" "[]"]
    exec_appends_history [of "str '' nope x ''" table_env 0 "table_terminal (str ''/'') []"
      "[str ''cd /nope'', str '' '', str ''cd /nope'']"]
  by (simp add: ok_def table_terminal_def trim_def is_space_def)

subsection \<open>echo\<close>

lemma indexOf_absent: "x \<notin> set args \<Longrightarrow> indexOf args x = -1"
  by (induction args) auto

lemma indexOf_range: "indexOf args x = -1 \<or> (0 \<le> indexOf args x \<and> indexOf args x < int (length args))"
  by (induction args) (auto simp: Let_def)

lemma indexOf_first: "x \<notin> set pre \<Longrightarrow> indexOf (pre @ x # rest) x = int (length pre)"
  by (induction pre) (auto simp: Let_def)

text \<open>
  What the handler does right: without arguments, or with the first \<open>>\<close> as the last
  argument, it fails with the usage and calls nothing; with a first \<open>>\<close> that another
  argument follows, it writes the joined arguments before it to the file named after it.
\<close>

lemma echo_handler_usage:
  "echo_handler env [] t = (Inr (fail (str ''usage: echo <text> > <file>'')), t)"
  "str ''>'' \<notin> set pre \<Longrightarrow>
     echo_handler env (pre @ [str ''>'']) t = (Inr (fail (str ''usage: echo <text> > <file>'')), t)"
  using indexOf_first [of "str ''>''" pre "[]"] by (simp_all add: echo_handler_def)

lemma echo_handler_redirect:
  assumes "str ''>'' \<notin> set pre"
  shows "echo_handler env (pre @ str ''>'' # file # rest) t
     = settle t (kernel_fs_write_file (kernel env) (kstate t) (resolve (cwd t) file)
         (encode env (join (str '' '') pre)))"
  using indexOf_first [OF assms, of "file # rest"]
  by (simp add: echo_handler_def Let_def slice0_def arg_at_def target_path_def resolve_def nth_append nat_add_distrib)

text \<open>
  What it does when no argument is \<open>>\<close> and there is an argument: no usage failure;
  it writes all arguments but the last, joined, to the file named by the first argument.
\<close>

lemma echo_handler_no_redirect:
  assumes "str ''>'' \<notin> set (a # args)"
  shows "echo_handler env (a # args) t
     = settle t (kernel_fs_write_file (kernel env) (kstate t) (resolve (cwd t) a)
         (encode env (join (str '' '') (butlast (a # args)))))"
proof -
  have "take (length args) (a # args) = butlast (a # args)"
    by (simp add: butlast_conv_take)
  then show ?thesis
    using indexOf_absent [OF assms]
    by (simp add: echo_handler_def Let_def slice0_def arg_at_def target_path_def resolve_def)
qed

text \<open>
  C1, where the program departs from the claim. For the arguments \<open>hello world\<close>, where
  no argument is \<open>>\<close>, \<open>indexOf\<close> gives \<open>-1\<close>, which is not the last index, so the
  handler does not fail with the usage: it writes \<open>hello\<close> to the file \<open>/hello\<close> and
  returns code 0.
\<close>

theorem echo_without_redirect_writes:
  "indexOf [str ''hello'', str ''world''] (str ''>'') = -1
   \<and> echo_handler table_env [str ''hello'', str ''world''] (table_terminal (str ''/'') [])
     = (Inr \<lparr>stdout = [], stderr = [], code = 0\<rparr>,
        table_terminal (str ''/'') [(str ''/hello'', FileNode (str ''hello''))])"
  by (simp add: echo_handler_def slice0_def terminal_eval resolve_eval)

subsection \<open>buildTree on names without line feeds\<close>

text \<open>A line that survives the splitting of a subtree: not empty and without a line feed.\<close>

lemma lines_survive:
  assumes "list_all (\<lambda>s. s \<noteq> [] \<and> LF \<notin> set s) ls"
  shows "filter (\<lambda>line. length line > 0) (split LF (join [LF] ls)) = ls"
proof (cases "ls = []")
  case True
  then show ?thesis by (simp add: split_def)
next
  case False
  have "list_all (\<lambda>s. LF \<notin> set s) ls" "list_all (\<lambda>s. s \<noteq> []) ls"
    using assms by (simp_all add: list_all_iff)
  then show ?thesis
    using False split_from_join [of ls LF] by (simp add: split_def list_all_iff)
qed

lemma connector_plain [simp]: "connector b \<noteq> []" "LF \<notin> set (connector b)" "LF \<notin> set (indent b)"
  by (simp_all add: connector_def indent_def)

lemma set_children:
  "set (children K k path) = (case kernel_fs_readdir K k path of Inl e \<Rightarrow> {} | Inr es \<Rightarrow> set es)"
  by (auto simp: children_def split: sum.splits)

lemma children_names: "plain_names K k \<Longrightarrow> list_all (\<lambda>e. LF \<notin> set e) (children K k path)"
  by (auto simp: plain_names_def set_children list_all_iff split: sum.splits)

lemma tree_lines_plain:
  "plain_names K k \<Longrightarrow> LF \<notin> set pfx \<Longrightarrow> tree_lines K k fuel path pfx = Some ls
     \<Longrightarrow> list_all (\<lambda>s. s \<noteq> [] \<and> LF \<notin> set s) ls"
  "plain_names K k \<Longrightarrow> LF \<notin> set pfx \<Longrightarrow> list_all (\<lambda>e. LF \<notin> set e) es
     \<Longrightarrow> child_lines K k fuel path pfx es = Some ls
     \<Longrightarrow> list_all (\<lambda>s. s \<noteq> [] \<and> LF \<notin> set s) ls"
proof (induction K k fuel path pfx and K k fuel path pfx es arbitrary: ls and ls
    rule: tree_lines_child_lines.induct)
  case (1 K k path pfx)
  then show ?case by simp
next
  case (2 K k fuel path pfx)
  then show ?case using children_names [of K k path] by simp
next
  case (3 K k fuel path pfx)
  then show ?case by simp
next
  case (4 K k fuel path pfx entry rest)
  then show ?case
    by (auto split: if_splits option.splits)
qed

text \<open>
  On plain names the two loops of \<open>buildTree\<close> give the lines of the specification,
  joined by line feeds, behind the path when \<open>isRoot\<close> is set.
\<close>

lemma buildTree_tree_lines:
  "plain_names K k \<Longrightarrow> LF \<notin> set pfx \<Longrightarrow>
     buildTree K k fuel path pfx isRoot
       = map_option (\<lambda>ls. join [LF] ((if isRoot then [path] else []) @ ls)) (tree_lines K k fuel path pfx)"
  "plain_names K k \<Longrightarrow> LF \<notin> set pfx \<Longrightarrow> list_all (\<lambda>e. LF \<notin> set e) es \<Longrightarrow>
     buildTree_entries K k fuel path pfx es = child_lines K k fuel path pfx es"
proof (induction K k fuel path pfx isRoot and K k fuel path pfx es
    rule: buildTree_buildTree_entries.induct)
  case (1 K k path pfx isRoot)
  then show ?case by simp
next
  case (2 K k fuel path pfx isRoot)
  show ?case
  proof (cases "kernel_fs_readdir K k path")
    case (Inl e)
    then show ?thesis by (simp add: children_def)
  next
    case (Inr entries)
    have c: "children K k path
        = sort (filter (\<lambda>entry. stat_is_dir K k (entryPath path entry)) entries)
          @ sort (filter (\<lambda>entry. \<not> stat_is_dir K k (entryPath path entry)) entries)"
      by (simp add: children_def Inr)
    have "buildTree_entries K k fuel path pfx (children K k path)
        = child_lines K k fuel path pfx (children K k path)"
      unfolding c
      using "2.prems" children_names [of K k path]
      by (intro "2.IH" [OF _ Inr refl refl refl]) (simp_all add: c)
    then show ?thesis
      by (simp add: Inr c [symmetric] Let_def split: option.splits)
  qed
next
  case (3 K k fuel path pfx)
  then show ?case by simp
next
  case (4 K k fuel path pfx entry rest)
  have rest: "list_all (\<lambda>e. LF \<notin> set e) rest" and entry: "LF \<notin> set entry"
    using "4.prems" by simp_all
  show ?case
  proof (cases "kernel_fs_stat K k (entryPath path entry)")
    case (Inl e)
    then have nd: "\<not> stat_is_dir K k (entryPath path entry)" by (simp add: stat_is_dir_def)
    show ?thesis
      using "4.IH"(1) [OF refl Inl "4.prems"(1,2) rest] Inl nd
      by (simp add: Let_def)
  next
    case (Inr st)
    show ?thesis
    proof (cases "is_dir st")
      case False
      then have nd: "\<not> stat_is_dir K k (entryPath path entry)" by (simp add: stat_is_dir_def Inr)
      show ?thesis
        using "4.IH"(4) [OF refl Inr False "4.prems"(1,2) rest] Inr False nd
        by (simp add: Let_def)
    next
      case True
      then have d: "stat_is_dir K k (entryPath path entry)" by (simp add: stat_is_dir_def Inr)
      have pf: "LF \<notin> set (pfx @ indent (rest = []))" using "4.prems"(2) by simp
      have sub: "buildTree K k fuel (entryPath path entry) (pfx @ indent (rest = [])) False
          = map_option (join [LF]) (tree_lines K k fuel (entryPath path entry) (pfx @ indent (rest = [])))"
        using "4.IH"(2) [OF refl Inr True "4.prems"(1) pf] by simp
      show ?thesis
      proof (cases "tree_lines K k fuel (entryPath path entry) (pfx @ indent (rest = []))")
        case None
        then show ?thesis using sub Inr True d by (simp add: Let_def)
      next
        case (Some below)
        have good: "list_all (\<lambda>s. s \<noteq> [] \<and> LF \<notin> set s) below"
          using tree_lines_plain(1) [OF "4.prems"(1) pf Some] .
        have st: "buildTree K k fuel (entryPath path entry) (pfx @ indent (rest = [])) False
            = Some (join [LF] below)"
          using sub Some by simp
        have later: "buildTree_entries K k fuel path pfx rest = child_lines K k fuel path pfx rest"
          using "4.IH"(3) [OF refl Inr True st refl "4.prems"(1,2) rest] .
        show ?thesis
          using Inr True d Some st later lines_survive [OF good]
          by (simp add: Let_def)
      qed
    qed
  qed
qed

text \<open>\<open>buildTree\<close> returns when the fuel exceeds the depth of the directories.\<close>

lemma children_ranked:
  "ranked K k rank \<Longrightarrow>
     list_all (\<lambda>e. stat_is_dir K k (entryPath path e) \<longrightarrow> rank (entryPath path e) < rank path)
       (children K k path)"
  by (auto simp: ranked_def set_children list_all_iff split: sum.splits)

lemma tree_lines_returns:
  "ranked K k rank \<Longrightarrow> rank path < fuel \<Longrightarrow> tree_lines K k fuel path pfx \<noteq> None"
  "ranked K k rank
     \<Longrightarrow> list_all (\<lambda>e. stat_is_dir K k (entryPath path e) \<longrightarrow> rank (entryPath path e) < fuel) es
     \<Longrightarrow> child_lines K k fuel path pfx es \<noteq> None"
proof (induction K k fuel path pfx and K k fuel path pfx es rule: tree_lines_child_lines.induct)
  case (1 K k path pfx)
  then show ?case by simp
next
  case (2 K k fuel path pfx)
  have "list_all (\<lambda>e. stat_is_dir K k (entryPath path e) \<longrightarrow> rank (entryPath path e) < fuel)
      (children K k path)"
    using children_ranked [OF "2.prems"(1), of path] "2.prems"(2)
    by (auto simp: list_all_iff)
  then show ?case using 2 by simp
next
  case (3 K k fuel path pfx)
  then show ?case by simp
next
  case (4 K k fuel path pfx entry rest)
  have rest: "list_all (\<lambda>e. stat_is_dir K k (entryPath path e) \<longrightarrow> rank (entryPath path e) < fuel) rest"
    using "4.prems"(2) by simp
  show ?case
  proof (cases "stat_is_dir K k (entryPath path entry)")
    case False
    then show ?thesis using "4.IH"(3) [OF False "4.prems"(1) rest] by auto
  next
    case True
    then have "rank (entryPath path entry) < fuel" using "4.prems"(2) by simp
    then obtain below where b: "tree_lines K k fuel (entryPath path entry) (pfx @ indent (rest = [])) = Some below"
      using "4.IH"(1) [OF True "4.prems"(1)] by auto
    show ?thesis
      using "4.IH"(2) [OF True b "4.prems"(1) rest] True b by auto
  qed
qed

lemma buildTree_renders_tree:
  assumes "plain_names K k" "ranked K k rank" "rank path < fuel"
  shows "\<exists>ls. tree_lines K k fuel path [] = Some ls
           \<and> buildTree K k fuel path [] True = Some (join [LF] (path # ls))"
proof -
  obtain ls where ls: "tree_lines K k fuel path [] = Some ls"
    using tree_lines_returns(1) [OF assms(2,3), of "[]"] by auto
  then show ?thesis
    using buildTree_tree_lines(1) [OF assms(1), of "[]" fuel path True] by simp
qed

text \<open>The lemma at work on the example of the specification.\<close>

lemma table_readdir_bound: "table_readdir k p = Inr es \<Longrightarrow> (p, DirNode es) \<in> set k"
  by (auto simp: table_readdir_def split: option.splits node.splits dest: map_of_SomeD)

lemma docs_table_plain: "plain_names table_kernel docs_table"
  unfolding plain_names_def
  by (auto simp: table_kernel_def docs_table_def dest!: table_readdir_bound)

lemma docs_table_ranked: "ranked table_kernel docs_table docs_rank"
  unfolding ranked_def
  by (auto simp: table_kernel_def docs_table_def docs_rank_def entryPath_def stat_is_dir_def table_stat_def
      dest!: table_readdir_bound)

lemma buildTree_renders_docs:
  "buildTree table_kernel docs_table 2 (str ''/docs'') [] True
     = Some (join [LF] [str ''/docs'', connector False @ str ''x/'', connector True @ str ''a.txt''])"
proof -
  have l: "tree_lines table_kernel docs_table 2 (str ''/docs'') []
      = Some [connector False @ str ''x/'', connector True @ str ''a.txt'']"
    by (simp add: numeral_2_eq_2 children_def table_kernel_def table_readdir_def table_stat_def
        stat_is_dir_def entryPath_def docs_table_def)
  have r: "docs_rank (str ''/docs'') < 2"
    by (simp add: docs_rank_def)
  show ?thesis
    using buildTree_renders_tree [OF docs_table_plain docs_table_ranked r] l by simp
qed

subsection \<open>tree\<close>

lemmas tree_eval = table_kernel_def table_readdir_def table_stat_def stat_is_dir_def entryPath_def
  connector_def indent_def split_def blank_line_table_def blank_line_name_def

text \<open>
  C7, where the program departs from the claim. On \<open>blank_line_table\<close> the directory
  \<open>/d/s\<close> has one child, whose name is \<open>x\<close>, two line feeds, \<open>y\<close>. The lines of the
  claim (\<open>tree_lines\<close>) show it under this name. The call of \<open>buildTree\<close> for \<open>/d/s\<close>
  renders it with indentation, connector and name; the call for \<open>/d\<close> splits that text
  at the line feeds and keeps the non-empty lines only, so the tree of \<open>/d\<close> shows the
  child as \<open>x\<close>, one line feed, \<open>y\<close>: not under its name. (On names without line
  feeds \<open>buildTree\<close> renders the lines of the claim: \<open>buildTree_renders_tree\<close>.)
\<close>

theorem buildTree_drops_blank_line_of_name:
  "tree_lines table_kernel blank_line_table 3 (str ''/d'') []
     = Some [connector True @ str ''s/'', indent True @ connector True @ str ''x'' @ [LF, LF] @ str ''y'']
   \<and> buildTree table_kernel blank_line_table 2 (str ''/d/s'') (indent True) False
     = Some (indent True @ connector True @ str ''x'' @ [LF, LF] @ str ''y'')
   \<and> buildTree table_kernel blank_line_table 3 (str ''/d'') [] True
     = Some (join [LF] [str ''/d'', connector True @ str ''s/'', indent True @ connector True @ str ''x'' @ [LF] @ str ''y''])
   \<and> tree_handler 3 table_env [str ''/d''] (table_terminal (str ''/'') blank_line_table)
     = Some (Inr (ok (join [LF] [str ''/d'', connector True @ str ''s/'',
          indent True @ connector True @ str ''x'' @ [LF] @ str ''y''])), table_terminal (str ''/'') blank_line_table)"
proof -
  have a: "buildTree table_kernel blank_line_table 2 (str ''/d/s'') (indent True) False
     = Some (indent True @ connector True @ str ''x'' @ [LF, LF] @ str ''y'')"
    by (simp add: numeral_2_eq_2 tree_eval)
  have b: "buildTree table_kernel blank_line_table 3 (str ''/d'') [] True
     = Some (join [LF] [str ''/d'', connector True @ str ''s/'', indent True @ connector True @ str ''x'' @ [LF] @ str ''y''])"
    by (simp add: numeral_3_eq_3 tree_eval)
  have c: "target_or_cwd (table_terminal (str ''/'') blank_line_table) [str ''/d''] = str ''/d''"
    by (simp add: target_or_cwd_def arg0_def table_terminal_def resolve_eval)
  have d: "kstate (table_terminal (str ''/'') blank_line_table) = blank_line_table"
    "kernel table_env = table_kernel"
    by (simp_all add: table_terminal_def table_env_def)
  have e: "tree_lines table_kernel blank_line_table 3 (str ''/d'') []
     = Some [connector True @ str ''s/'', indent True @ connector True @ str ''x'' @ [LF, LF] @ str ''y'']"
    by (simp add: numeral_3_eq_3 children_def tree_eval)
  show ?thesis
    using a b c d e by (simp add: tree_handler_def)
qed

end
